theory Spec2Isabelle
  imports Complex_Main "HOL-Library.Word"
begin

section \<open>JavaScript values\<close>

text \<open>
  The extension is written in JavaScript. Its retry utilities test the dynamic type of what
  they are given (\<^verbatim>\<open>typeof x !== 'number'\<close>), compare numbers and test truthiness, so
  the model starts with the values these tests can tell apart.

  A number is \<open>NaN\<close>, one of the two infinities, or a finite value, which is the real
  number the double denotes. Comparison is exact and every comparison with \<open>NaN\<close> is false.
  Sums, products and powers are computed as the language computes them: the exact result is
  rounded to the nearest double (\<open>round_double\<close> below). The sign of zero is not modelled.
\<close>

datatype jsnum = NaN | NegInf | Fin real | PosInf

text \<open>A string is its sequence of UTF-16 code units; \<^verbatim>\<open>length\<close> counts code units.\<close>

type_synonym jsstring = "16 word list"

definition js_lit :: "string \<Rightarrow> jsstring" where
  "js_lit s = map of_char s"

text \<open>
  An object is the list of its own properties; the first binding of a name is the one a
  property read sees.
\<close>

datatype jsval =
    JUndefined
  | JNull
  | JBool bool
  | JNum jsnum
  | JStr jsstring
  | JObj "(string \<times> jsval) list"

text \<open>What a call (or an awaited promise) can do: return a value or throw one.\<close>

datatype 'a outcome = Returned 'a | Raised jsval

fun typeof :: "jsval \<Rightarrow> string" where
  "typeof JUndefined = ''undefined''"
| "typeof JNull = ''object''"
| "typeof (JBool b) = ''boolean''"
| "typeof (JNum n) = ''number''"
| "typeof (JStr s) = ''string''"
| "typeof (JObj ps) = ''object''"

text \<open>Truthiness: \<^verbatim>\<open>undefined\<close>, \<^verbatim>\<open>null\<close>, \<^verbatim>\<open>false\<close>, \<^verbatim>\<open>0\<close>, \<^verbatim>\<open>NaN\<close> and \<^verbatim>\<open>''\<close> are falsy.\<close>

fun truthy :: "jsval \<Rightarrow> bool" where
  "truthy JUndefined = False"
| "truthy JNull = False"
| "truthy (JBool b) = b"
| "truthy (JNum n) = (n \<noteq> NaN \<and> n \<noteq> Fin 0)"
| "truthy (JStr s) = (s \<noteq> [])"
| "truthy (JObj ps) = True"

text \<open>
  \<open>get_prop v k\<close> is the property read \<^verbatim>\<open>v.k\<close> on a value that is neither \<^verbatim>\<open>null\<close> nor
  \<^verbatim>\<open>undefined\<close>: an absent property reads \<^verbatim>\<open>undefined\<close>. \<open>get_member\<close> is the read on
  any value: on \<^verbatim>\<open>null\<close> and \<^verbatim>\<open>undefined\<close> it throws a TypeError.
\<close>

fun get_prop :: "jsval \<Rightarrow> string \<Rightarrow> jsval" where
  "get_prop (JObj ps) k = (case map_of ps k of Some v \<Rightarrow> v | None \<Rightarrow> JUndefined)"
| "get_prop v k = JUndefined"

definition TypeError :: "string \<Rightarrow> jsval" where
  "TypeError msg = JObj [(''name'', JStr (js_lit ''TypeError'')), (''message'', JStr (js_lit msg))]"

fun get_member :: "jsval \<Rightarrow> string \<Rightarrow> jsval outcome" where
  "get_member JUndefined k = Raised (TypeError ''Cannot read properties of undefined'')"
| "get_member JNull k = Raised (TypeError ''Cannot read properties of null'')"
| "get_member v k = Returned (get_prop v k)"

text \<open>\<open>number_of v\<close> is the number \<open>v\<close> when \<^verbatim>\<open>typeof v === 'number'\<close>.\<close>

fun number_of :: "jsval \<Rightarrow> jsnum option" where
  "number_of (JNum n) = Some n"
| "number_of v = None"

subsection \<open>Arithmetic and comparison of numbers\<close>

fun js_lt :: "jsnum \<Rightarrow> jsnum \<Rightarrow> bool" where
  "js_lt NaN y = False"
| "js_lt x NaN = False"
| "js_lt PosInf y = False"
| "js_lt x NegInf = False"
| "js_lt NegInf y = True"
| "js_lt x PosInf = True"
| "js_lt (Fin a) (Fin b) = (a < b)"

fun js_le :: "jsnum \<Rightarrow> jsnum \<Rightarrow> bool" where
  "js_le NaN y = False"
| "js_le x NaN = False"
| "js_le NegInf y = True"
| "js_le x PosInf = True"
| "js_le PosInf y = False"
| "js_le x NegInf = False"
| "js_le (Fin a) (Fin b) = (a \<le> b)"

text \<open>
  Rounding to double precision, to nearest with ties to even. A double is \<open>m \<times> 2^e\<close> with
  \<open>\<bar>m\<bar> < 2^53\<close> and \<open>- 1074 \<le> e \<le> 971\<close>. For a magnitude \<open>a > 0\<close>, \<open>ulp_exponent a\<close>
  is the exponent \<open>e\<close> of the doubles around \<open>a\<close>, \<open>nearest_magnitude a\<close> the multiple of
  \<open>2^e\<close> nearest to \<open>a\<close>; a result of \<open>2^1024\<close> or more overflows to an infinity.
\<close>

definition round_half_even :: "real \<Rightarrow> int" where
  "round_half_even q =
     (if q - of_int \<lfloor>q\<rfloor> < 1 / 2 then \<lfloor>q\<rfloor>
      else if 1 / 2 < q - of_int \<lfloor>q\<rfloor> then \<lfloor>q\<rfloor> + 1
      else if even \<lfloor>q\<rfloor> then \<lfloor>q\<rfloor>
      else \<lfloor>q\<rfloor> + 1)"

definition ulp_exponent :: "real \<Rightarrow> int" where
  "ulp_exponent a = max (\<lfloor>log 2 a\<rfloor> - 52) (- 1074)"

definition nearest_magnitude :: "real \<Rightarrow> real" where
  "nearest_magnitude a =
     (let e = ulp_exponent a
      in of_int (round_half_even (a / 2 powr of_int e)) * 2 powr of_int e)"

definition signed_inf :: "bool \<Rightarrow> jsnum" where
  "signed_inf positive = (if positive then PosInf else NegInf)"

definition round_double :: "real \<Rightarrow> jsnum" where
  "round_double x =
     (if x = 0 then Fin 0
      else if 2 ^ 1024 \<le> nearest_magnitude \<bar>x\<bar> then signed_inf (0 < x)
      else Fin (sgn x * nearest_magnitude \<bar>x\<bar>))"

fun js_add :: "jsnum \<Rightarrow> jsnum \<Rightarrow> jsnum" where
  "js_add NaN y = NaN"
| "js_add x NaN = NaN"
| "js_add PosInf NegInf = NaN"
| "js_add NegInf PosInf = NaN"
| "js_add PosInf y = PosInf"
| "js_add x PosInf = PosInf"
| "js_add NegInf y = NegInf"
| "js_add x NegInf = NegInf"
| "js_add (Fin a) (Fin b) = round_double (a + b)"

fun js_mul :: "jsnum \<Rightarrow> jsnum \<Rightarrow> jsnum" where
  "js_mul NaN y = NaN"
| "js_mul x NaN = NaN"
| "js_mul (Fin a) (Fin b) = round_double (a * b)"
| "js_mul (Fin a) PosInf = (if a = 0 then NaN else signed_inf (0 < a))"
| "js_mul (Fin a) NegInf = (if a = 0 then NaN else signed_inf (a < 0))"
| "js_mul PosInf (Fin b) = (if b = 0 then NaN else signed_inf (0 < b))"
| "js_mul NegInf (Fin b) = (if b = 0 then NaN else signed_inf (b < 0))"
| "js_mul PosInf PosInf = PosInf"
| "js_mul NegInf NegInf = PosInf"
| "js_mul PosInf NegInf = NegInf"
| "js_mul NegInf PosInf = NegInf"

text \<open>\<^verbatim>\<open>x - 1\<close>, the only subtraction the retry loop makes.\<close>

definition js_pred :: "jsnum \<Rightarrow> jsnum" where
  "js_pred x = js_add x (Fin (- 1))"

text \<open>
  \<^verbatim>\<open>Math.pow(base, n)\<close> for an exponent that is a non-negative integer: the power with
  exponent 0 is 1 whatever the base, \<open>NaN\<close> included. The language leaves the accuracy of
  \<^verbatim>\<open>Math.pow\<close> to the implementation; the model takes the correctly rounded power.
\<close>

definition Math_pow :: "jsnum \<Rightarrow> nat \<Rightarrow> jsnum" where
  "Math_pow base n =
     (if n = 0 then Fin 1
      else case base of
             NaN \<Rightarrow> NaN
           | Fin a \<Rightarrow> round_double (a ^ n)
           | PosInf \<Rightarrow> PosInf
           | NegInf \<Rightarrow> signed_inf (even n))"

fun Math_min :: "jsnum \<Rightarrow> jsnum \<Rightarrow> jsnum" where
  "Math_min NaN y = NaN"
| "Math_min x NaN = NaN"
| "Math_min NegInf y = NegInf"
| "Math_min x NegInf = NegInf"
| "Math_min PosInf y = y"
| "Math_min x PosInf = x"
| "Math_min (Fin a) (Fin b) = Fin (min a b)"

section \<open>Retry configuration\<close>

text \<open>\<^verbatim>\<open>RETRY_CONFIG\<close> of the retry utilities.\<close>

definition RETRY_CONFIG_portal :: jsval where
  "RETRY_CONFIG_portal = JObj
     [(''maxAttempts'', JNum (Fin 5)),
      (''initialDelay'', JNum (Fin 200)),
      (''maxDelay'', JNum (Fin 2000)),
      (''backoffMultiplier'', JNum (Fin 2)),
      (''backoffType'', JStr (js_lit ''exponential''))]"

definition RETRY_CONFIG_console :: jsval where
  "RETRY_CONFIG_console = JObj
     [(''maxAttempts'', JNum (Fin 5)),
      (''initialDelay'', JNum (Fin 500)),
      (''maxDelay'', JNum (Fin 2500)),
      (''backoffMultiplier'', JNum (Fin 500)),
      (''backoffType'', JStr (js_lit ''linear''))]"

definition elementPolling_pollInterval :: int where
  "elementPolling_pollInterval = 100"

definition elementPolling_timeout :: jsnum where
  "elementPolling_timeout = Fin 3000"

text \<open>
  \<^verbatim>\<open>validateConfig\<close>. Each test \<^verbatim>\<open>typeof x !== 'number' || x <= 0\<close> returns false for a
  value that is not a number and otherwise compares the number; the tests run in the
  source's order.
\<close>

definition validateConfig :: "jsval \<Rightarrow> bool" where
  "validateConfig config =
     (if \<not> truthy config then False
      else if typeof config \<noteq> ''object'' then False
      else
        (case number_of (get_prop config ''maxAttempts'') of
           None \<Rightarrow> False
         | Some maxAttempts \<Rightarrow>
             if js_le maxAttempts (Fin 0) then False
             else
               (case number_of (get_prop config ''initialDelay'') of
                  None \<Rightarrow> False
                | Some initialDelay \<Rightarrow>
                    if js_lt initialDelay (Fin 0) then False
                    else
                      (case number_of (get_prop config ''maxDelay'') of
                         None \<Rightarrow> False
                       | Some maxDelay \<Rightarrow>
                           if js_lt maxDelay (Fin 0) then False
                           else
                             (case number_of (get_prop config ''backoffMultiplier'') of
                                None \<Rightarrow> False
                              | Some backoffMultiplier \<Rightarrow>
                                  if js_le backoffMultiplier (Fin 0) then False
                                  else if js_lt maxDelay initialDelay then False
                                  else True)))))"

text \<open>
  A configuration reaches \<open>validateConfig\<close> as an arbitrary value. The delay calculation
  and the retry loop read it after validation, when its four numeric fields are numbers, and
  see it as a \<open>retry_config\<close>.
\<close>

record retry_config =
  maxAttempts :: jsnum
  initialDelay :: jsnum
  maxDelay :: jsnum
  backoffMultiplier :: jsnum
  backoffType :: jsval

text \<open>
  The destructuring \<^verbatim>\<open>const { maxAttempts, initialDelay, maxDelay, backoffMultiplier,
  backoffType } = config\<close> of a configuration whose numeric fields are numbers.
\<close>

definition as_config :: "jsval \<Rightarrow> retry_config option" where
  "as_config config =
     (case number_of (get_prop config ''maxAttempts'') of
        None \<Rightarrow> None
      | Some a \<Rightarrow>
         (case number_of (get_prop config ''initialDelay'') of
            None \<Rightarrow> None
          | Some i \<Rightarrow>
             (case number_of (get_prop config ''maxDelay'') of
                None \<Rightarrow> None
              | Some m \<Rightarrow>
                 (case number_of (get_prop config ''backoffMultiplier'') of
                    None \<Rightarrow> None
                  | Some b \<Rightarrow>
                      Some \<lparr>maxAttempts = a, initialDelay = i, maxDelay = m,
                            backoffMultiplier = b,
                            backoffType = get_prop config ''backoffType''\<rparr>))))"

text \<open>
  \<^verbatim>\<open>calculateDelay(attemptNumber, config)\<close>, for a 0-indexed attempt number: the value of
  the loop counter, an integer that is a double.
\<close>

definition calculateDelay :: "nat \<Rightarrow> retry_config \<Rightarrow> jsnum" where
  "calculateDelay attemptNumber config =
     (let delay =
        (if backoffType config = JStr (js_lit ''exponential'')
         then js_mul (initialDelay config) (Math_pow (backoffMultiplier config) attemptNumber)
         else js_add (initialDelay config)
                (js_mul (backoffMultiplier config) (Fin (real attemptNumber))))
      in Math_min delay (maxDelay config))"

subsection \<open>The specification's readings\<close>

text \<open>
  The validity of a configuration in the specification's words: the configuration is an
  object, \<open>maxAttempts\<close> is a number \<open>> 0\<close>, \<open>initialDelay\<close> and \<open>maxDelay\<close> are
  numbers \<open>\<ge> 0\<close>, \<open>backoffMultiplier\<close> is a number \<open>> 0\<close>, and
  \<open>maxDelay \<ge> initialDelay\<close>.
\<close>

definition is_object :: "jsval \<Rightarrow> bool" where
  "is_object v = (case v of JObj ps \<Rightarrow> True | _ \<Rightarrow> False)"

definition number_satisfying :: "(jsnum \<Rightarrow> bool) \<Rightarrow> jsval \<Rightarrow> bool" where
  "number_satisfying P v = (case number_of v of None \<Rightarrow> False | Some n \<Rightarrow> P n)"

definition spec_valid_config :: "jsval \<Rightarrow> bool" where
  "spec_valid_config config =
     (is_object config \<and>
      number_satisfying (\<lambda>n. js_lt (Fin 0) n) (get_prop config ''maxAttempts'') \<and>
      number_satisfying (\<lambda>n. js_le (Fin 0) n) (get_prop config ''initialDelay'') \<and>
      number_satisfying (\<lambda>n. js_le (Fin 0) n) (get_prop config ''maxDelay'') \<and>
      number_satisfying (\<lambda>n. js_lt (Fin 0) n) (get_prop config ''backoffMultiplier'') \<and>
      number_satisfying (\<lambda>d. number_satisfying (\<lambda>i. js_le i d) (get_prop config ''initialDelay''))
        (get_prop config ''maxDelay''))"



section \<open>The retry executor\<close>

text \<open>
  What \<open>retryWithBackoff\<close> does besides returning: its log lines, the calls of the probe
  and the suspensions \<^verbatim>\<open>await new Promise(resolve => setTimeout(resolve, delay))\<close>, in the
  order they happen. Attempt numbers in log lines are 1-based, as in the source.
\<close>

datatype event =
    Warn_invalid_config
  | Log_attempt nat jsnum
  | Probe_called
  | Log_success nat
  | Log_failed nat jsnum
  | Log_error nat jsval
  | Log_retry_after_error jsnum
  | Sleep jsnum
  | Warn_exhausted jsnum

text \<open>
  A probe is an asynchronous function of no arguments: awaited in a state of the page it
  returns a value or throws, and leaves a state behind.
\<close>

type_synonym 's probe = "'s \<Rightarrow> jsval outcome \<times> 's"

text \<open>
  How a block of the loop body completes: normally (carrying the value of \<^verbatim>\<open>lastResult\<close>),
  by \<^verbatim>\<open>return\<close>, or by a throw.
\<close>

datatype completion = Normal jsval | Return jsval | Throw jsval

text \<open>
  The \<^verbatim>\<open>try\<close> block of one attempt. An exception of the probe leaves the block before
  \<^verbatim>\<open>lastResult\<close> is assigned.
\<close>

definition try_block :: "'s probe \<Rightarrow> retry_config \<Rightarrow> nat \<Rightarrow> 's \<Rightarrow> completion \<times> 's \<times> event list" where
  "try_block fn config attempt s =
     (case fn s of
        (Raised error, s') \<Rightarrow>
          (Throw error, s', [Log_attempt (attempt + 1) (maxAttempts config), Probe_called])
      | (Returned result, s') \<Rightarrow>
          if truthy result
          then (Return result, s',
                [Log_attempt (attempt + 1) (maxAttempts config), Probe_called,
                 Log_success (attempt + 1)])
          else if js_lt (Fin (real attempt)) (js_pred (maxAttempts config))
          then (Normal result, s',
                [Log_attempt (attempt + 1) (maxAttempts config), Probe_called,
                 Log_failed (attempt + 1) (calculateDelay attempt config),
                 Sleep (calculateDelay attempt config)])
          else (Normal result, s',
                [Log_attempt (attempt + 1) (maxAttempts config), Probe_called]))"

text \<open>The \<^verbatim>\<open>catch\<close> block: it logs the error, and waits unless the attempt was the last.\<close>

definition catch_block :: "jsval \<Rightarrow> retry_config \<Rightarrow> nat \<Rightarrow> event list" where
  "catch_block error config attempt =
     (if js_lt (Fin (real attempt)) (js_pred (maxAttempts config))
      then [Log_error (attempt + 1) error,
            Log_retry_after_error (calculateDelay attempt config),
            Sleep (calculateDelay attempt config)]
      else [Log_error (attempt + 1) error])"

text \<open>One iteration of the loop: the \<^verbatim>\<open>try\<close> statement with its handler.\<close>

definition iteration :: "'s probe \<Rightarrow> retry_config \<Rightarrow> nat \<Rightarrow> jsval \<Rightarrow> 's \<Rightarrow> completion \<times> 's \<times> event list" where
  "iteration fn config attempt lastResult s =
     (case try_block fn config attempt s of
        (Throw error, s', evs) \<Rightarrow> (Normal lastResult, s', evs @ catch_block error config attempt)
      | (Normal result, s', evs) \<Rightarrow> (Normal result, s', evs)
      | (Return result, s', evs) \<Rightarrow> (Return result, s', evs))"

text \<open>
  The loop \<^verbatim>\<open>for (let attempt = 0; attempt < maxAttempts; attempt++)\<close> and the code after
  it. Nothing bounds the loop when \<open>maxAttempts\<close> is \<open>Infinity\<close>, so the function is
  partial: \<open>None\<close> is a run that never returns. A throw that left an iteration would reject
  the promise of the \<^verbatim>\<open>async\<close> function.
\<close>

partial_function (option) retry_loop ::
  "'s probe \<Rightarrow> retry_config \<Rightarrow> nat \<Rightarrow> jsval \<Rightarrow> 's \<Rightarrow> (jsval outcome \<times> 's \<times> event list) option"
where
  "retry_loop fn config attempt lastResult s =
     (if js_lt (Fin (real attempt)) (maxAttempts config)
      then
        (case iteration fn config attempt lastResult s of
           (Normal lastResult', s', evs) \<Rightarrow>
             Option.bind (retry_loop fn config (Suc attempt) lastResult' s')
               (\<lambda>(r, s'', evs'). Some (r, s'', evs @ evs'))
         | (Return result, s', evs) \<Rightarrow> Some (Returned result, s', evs)
         | (Throw error, s', evs) \<Rightarrow> Some (Raised error, s', evs))
      else Some (Returned lastResult, s, [Warn_exhausted (maxAttempts config)]))"

text \<open>
  \<^verbatim>\<open>retryWithBackoff(fn, config)\<close>. The configuration the loop runs under is the validated
  argument or the portal preset; both have numeric fields (\<open>effective_config_numeric\<close>
  below), so the first branch of the \<open>case\<close> is never taken.
\<close>

definition retryWithBackoff ::
  "'s probe \<Rightarrow> jsval \<Rightarrow> 's \<Rightarrow> (jsval outcome \<times> 's \<times> event list) option"
where
  "retryWithBackoff fn config s =
     (let (warning, config') =
            (if \<not> validateConfig config then ([Warn_invalid_config], RETRY_CONFIG_portal)
             else ([], config))
      in case as_config config' of
           None \<Rightarrow> None
         | Some cfg \<Rightarrow>
             Option.bind (retry_loop fn cfg 0 JNull s)
               (\<lambda>(r, s', evs). Some (r, s', warning @ evs)))"

subsection \<open>Describing a run\<close>

text \<open>
  The state in which the probe is called for the \<open>(i+1)\<close>-th time, and what that call does.
\<close>

definition probe_state :: "'s probe \<Rightarrow> 's \<Rightarrow> nat \<Rightarrow> 's" where
  "probe_state fn s i = ((\<lambda>t. snd (fn t)) ^^ i) s"

definition nth_outcome :: "'s probe \<Rightarrow> 's \<Rightarrow> nat \<Rightarrow> jsval outcome" where
  "nth_outcome fn s i = fst (fn (probe_state fn s i))"

text \<open>An attempt succeeds when the probe returns a truthy value.\<close>

fun succeeds :: "jsval outcome \<Rightarrow> bool" where
  "succeeds (Returned v) = truthy v"
| "succeeds (Raised e) = False"

definition count_calls :: "event list \<Rightarrow> nat" where
  "count_calls evs = length (filter (\<lambda>e. e = Probe_called) evs)"

text \<open>The delays a run waits, in order.\<close>

fun sleeps :: "event list \<Rightarrow> jsnum list" where
  "sleeps [] = []"
| "sleeps (Sleep delay # evs) = delay # sleeps evs"
| "sleeps (e # evs) = sleeps evs"

text \<open>
  The last value a failed attempt returned, \<^verbatim>\<open>null\<close> when none returned: an attempt that
  throws leaves it as it was.
\<close>

fun observe :: "jsval \<Rightarrow> jsval outcome \<Rightarrow> jsval" where
  "observe lastResult (Returned v) = v"
| "observe lastResult (Raised e) = lastResult"

definition last_observed :: "'s probe \<Rightarrow> 's \<Rightarrow> nat \<Rightarrow> jsval" where
  "last_observed fn s n = foldl observe JNull (map (nth_outcome fn s) [0..<n])"

text \<open>
  How many times the loop condition \<^verbatim>\<open>attempt < maxAttempts\<close> holds for
  \<open>attempt = 0, 1, 2, \<dots>\<close> when \<open>maxAttempts\<close> is not \<open>Infinity\<close>.
\<close>

fun attempt_limit :: "jsnum \<Rightarrow> nat" where
  "attempt_limit (Fin r) = nat \<lceil>r\<rceil>"
| "attempt_limit x = 0"

subsection \<open>Concrete probes and configurations\<close>

text \<open>
  Three probes whose state counts their calls: one that always returns \<^verbatim>\<open>null\<close>, one that
  returns \<^verbatim>\<open>{data: 'x'}\<close> on its third call and \<^verbatim>\<open>null\<close> otherwise, and one that returns
  \<^verbatim>\<open>false\<close> on its first call and throws on every later one.
\<close>

definition failing_probe :: "nat probe" where
  "failing_probe calls = (Returned JNull, Suc calls)"

definition flaky_probe :: "nat probe" where
  "flaky_probe calls =
     (if calls = 2 then Returned (JObj [(''data'', JStr (js_lit ''x''))]) else Returned JNull,
      Suc calls)"

definition throwing_probe :: "nat probe" where
  "throwing_probe calls =
     (if calls = 0 then Returned (JBool False) else Raised (JStr (js_lit ''boom'')), Suc calls)"

text \<open>A configuration of three attempts, and an invalid one of none.\<close>

definition scenario_B_config :: jsval where
  "scenario_B_config = JObj
     [(''maxAttempts'', JNum (Fin 3)),
      (''initialDelay'', JNum (Fin 200)),
      (''maxDelay'', JNum (Fin 2000)),
      (''backoffMultiplier'', JNum (Fin 2)),
      (''backoffType'', JStr (js_lit ''exponential''))]"

definition zero_attempts_config :: jsval where
  "zero_attempts_config = JObj
     [(''maxAttempts'', JNum (Fin 0)),
      (''initialDelay'', JNum (Fin 200)),
      (''maxDelay'', JNum (Fin 2000)),
      (''backoffMultiplier'', JNum (Fin 2)),
      (''backoffType'', JStr (js_lit ''exponential''))]"


text \<open>A configuration whose attempt count is \<open>NaN\<close>.\<close>

definition nan_attempts_config :: jsval where
  "nan_attempts_config = JObj
     [(''maxAttempts'', JNum NaN),
      (''initialDelay'', JNum (Fin 0)),
      (''maxDelay'', JNum (Fin 0)),
      (''backoffMultiplier'', JNum (Fin 1))]"

section \<open>The element poller\<close>

text \<open>
  What the poller needs of the browser, over a type \<open>'w\<close> of page states:
  \<^verbatim>\<open>document.querySelector\<close>, which returns an element or \<^verbatim>\<open>null\<close> and throws a
  \<^verbatim>\<open>SyntaxError\<close> on a selector that does not parse; the clock \<^verbatim>\<open>Date.now()\<close>; and the
  page state in which a timer set by \<^verbatim>\<open>setTimeout(f, ms)\<close> fires.
\<close>

record 'w browser =
  querySelector :: "'w \<Rightarrow> jsstring \<Rightarrow> jsval outcome"
  Date_now :: "'w \<Rightarrow> int"
  after_timeout :: "int \<Rightarrow> 'w \<Rightarrow> 'w"

text \<open>
  The promise \<^verbatim>\<open>waitForElement\<close> returns ends resolved with a value, rejected with an
  error, or never settled.
\<close>

datatype settled = Resolved jsval | Rejected jsval | Never_settled

datatype poll_event =
    Queried
  | Log_element_found jsstring
  | Warn_element_not_found jsnum jsstring
  | Timer_set int

text \<open>
  The closure \<^verbatim>\<open>check\<close>. Its first call is made by the promise's executor, where a throw
  rejects the promise; every later call is made by a timer, where a throw is an uncaught
  error of the callback: no further timer is set and the promise stays pending. A run that
  polls for ever is \<open>None\<close>.
\<close>

partial_function (option) check ::
  "'w browser \<Rightarrow> jsstring \<Rightarrow> jsnum \<Rightarrow> int \<Rightarrow> bool \<Rightarrow> 'w \<Rightarrow> (settled \<times> 'w \<times> poll_event list) option"
where
  "check env selector timeout startTime in_executor w =
     (case querySelector env w selector of
        Raised error \<Rightarrow>
          Some (if in_executor then Rejected error else Never_settled, w, [Queried])
      | Returned element \<Rightarrow>
          if truthy element
          then Some (Resolved element, w, [Queried, Log_element_found selector])
          else if js_le timeout (Fin (real_of_int (Date_now env w - startTime)))
          then Some (Resolved JNull, w, [Queried, Warn_element_not_found timeout selector])
          else
            Option.bind
              (check env selector timeout startTime False
                 (after_timeout env elementPolling_pollInterval w))
              (\<lambda>(r, w', evs). Some (r, w', [Queried, Timer_set elementPolling_pollInterval] @ evs)))"

text \<open>
  \<^verbatim>\<open>waitForElement(selector, timeout)\<close>; a call without the second argument passes
  \<open>elementPolling_timeout\<close>.
\<close>

definition waitForElement ::
  "'w browser \<Rightarrow> jsstring \<Rightarrow> jsnum \<Rightarrow> 'w \<Rightarrow> (settled \<times> 'w \<times> poll_event list) option"
where
  "waitForElement env selector timeout w = check env selector timeout (Date_now env w) True w"

text \<open>The page state at the \<open>(i+1)\<close>-th poll.\<close>

definition poll_state :: "'w browser \<Rightarrow> 'w \<Rightarrow> nat \<Rightarrow> 'w" where
  "poll_state env w i = (after_timeout env elementPolling_pollInterval ^^ i) w"

text \<open>A poll that neither finds the element nor times out nor throws.\<close>

definition keeps_waiting :: "'w browser \<Rightarrow> jsstring \<Rightarrow> jsnum \<Rightarrow> int \<Rightarrow> 'w \<Rightarrow> bool" where
  "keeps_waiting env selector timeout startTime w =
     (case querySelector env w selector of
        Raised error \<Rightarrow> False
      | Returned element \<Rightarrow>
          \<not> truthy element \<and> \<not> js_le timeout (Fin (real_of_int (Date_now env w - startTime))))"

definition SyntaxError :: "string \<Rightarrow> jsval" where
  "SyntaxError msg = JObj [(''name'', JStr (js_lit ''SyntaxError'')), (''message'', JStr (js_lit msg))]"

text \<open>
  A page whose clock reads its state, on which a timer of \<open>ms\<close> milliseconds fires \<open>ms\<close>
  later, where the element \<^verbatim>\<open>#menu\<close> exists from time 250 on, and where the empty selector
  does not parse.
\<close>

definition slow_page :: "int browser" where
  "slow_page =
     \<lparr>querySelector = (\<lambda>t selector.
        if selector = [] then Raised (SyntaxError ''The provided selector is empty'')
        else if selector = js_lit ''#menu'' \<and> 250 \<le> t
        then Returned (JObj [(''id'', JStr (js_lit ''menu''))])
        else Returned JNull),
      Date_now = (\<lambda>t. t),
      after_timeout = (\<lambda>ms t. t + ms)\<rparr>"

section \<open>Validation of account data\<close>

text \<open>
  The regular expression \<^verbatim>\<open>/^\d{12}$/\<close> has no flags: \<^verbatim>\<open>\d\<close> is an ASCII digit and
  \<^verbatim>\<open>^\<close>, \<^verbatim>\<open>$\<close> match only at the two ends of the input.
\<close>

definition is_digit :: "16 word \<Rightarrow> bool" where
  "is_digit c = (0x30 \<le> c \<and> c \<le> 0x39)"

definition twelve_digits :: "jsstring \<Rightarrow> bool" where
  "twelve_digits s = (length s = 12 \<and> list_all is_digit s)"

text \<open>
  The code units \<^verbatim>\<open>String.prototype.trim\<close> strips: the white space and line terminator
  characters of the language.
\<close>

definition is_whitespace :: "16 word \<Rightarrow> bool" where
  "is_whitespace c =
     (c \<in> {0x09, 0x0A, 0x0B, 0x0C, 0x0D, 0x20, 0xA0, 0x1680, 0x2028, 0x2029, 0x202F, 0x205F,
            0x3000, 0xFEFF}
      \<or> (0x2000 \<le> c \<and> c \<le> 0x200A))"

definition trim :: "jsstring \<Rightarrow> jsstring" where
  "trim s = rev (dropWhile is_whitespace (rev (dropWhile is_whitespace s)))"

text \<open>\<^verbatim>\<open>s.substring(0, n)\<close> for a non-negative integer \<open>n\<close>.\<close>

definition substring0 :: "jsstring \<Rightarrow> nat \<Rightarrow> jsstring" where
  "substring0 s n = take n s"

definition isValidAccountId :: "jsval \<Rightarrow> bool" where
  "isValidAccountId v = (case v of JStr s \<Rightarrow> twelve_digits s | _ \<Rightarrow> False)"

definition isValidAccountName :: "jsval \<Rightarrow> bool" where
  "isValidAccountName v =
     (case v of JStr name \<Rightarrow> 0 < length (trim name) \<and> length name \<le> 256 | _ \<Rightarrow> False)"

definition sanitizeAccountName :: "jsval \<Rightarrow> jsstring" where
  "sanitizeAccountName v = (case v of JStr name \<Rightarrow> substring0 (trim name) 256 | _ \<Rightarrow> [])"

section \<open>The storage service\<close>

text \<open>
  \<^verbatim>\<open>chrome.storage.local\<close> is the browser's, not the extension's. The model keeps the two
  items the service writes, \<^verbatim>\<open>accounts\<close> and \<^verbatim>\<open>version\<close> (\<open>None\<close> when the key is absent):
  \<^verbatim>\<open>set\<close> replaces the values of the keys it is given, \<^verbatim>\<open>get\<close> returns the items that are
  present and \<^verbatim>\<open>clear\<close> removes them all. The area can be out of order: while \<open>failure\<close>
  is \<open>Some e\<close>, every call of its API rejects with the error \<open>e\<close>.
\<close>

record account_mapping =
  stored_accountId :: jsstring
  stored_accountName :: jsstring
  lastUpdated :: int

record local_storage =
  accounts_item :: "(jsstring \<rightharpoonup> account_mapping) option"
  version_item :: "int option"
  failure :: "jsval option"

definition storage_set ::
  "(jsstring \<rightharpoonup> account_mapping) \<Rightarrow> int \<Rightarrow> local_storage \<Rightarrow> unit outcome \<times> local_storage"
where
  "storage_set accounts version st =
     (case failure st of
        Some e \<Rightarrow> (Raised e, st)
      | None \<Rightarrow> (Returned (), st\<lparr>accounts_item := Some accounts, version_item := Some version\<rparr>))"

definition storage_get_accounts ::
  "local_storage \<Rightarrow> (jsstring \<rightharpoonup> account_mapping) option outcome"
where
  "storage_get_accounts st =
     (case failure st of Some e \<Rightarrow> Raised e | None \<Rightarrow> Returned (accounts_item st))"

definition storage_clear :: "local_storage \<Rightarrow> unit outcome \<times> local_storage" where
  "storage_clear st =
     (case failure st of
        Some e \<Rightarrow> (Raised e, st)
      | None \<Rightarrow> (Returned (), st\<lparr>accounts_item := None, version_item := None\<rparr>))"

text \<open>The results the service returns: \<^verbatim>\<open>{success, error?}\<close> and \<^verbatim>\<open>{success, accountName, error?}\<close>.\<close>

record store_result =
  success :: bool
  error :: "jsval option"

record name_result = store_result +
  accountName :: "jsstring option"

text \<open>The string a value is when its \<^verbatim>\<open>typeof\<close> is \<^verbatim>\<open>'string'\<close>; used under that test only.\<close>

fun the_string :: "jsval \<Rightarrow> jsstring" where
  "the_string (JStr s) = s"
| "the_string v = []"

text \<open>
  The loop \<^verbatim>\<open>for (const account of accounts)\<close> of \<open>storeAccounts\<close>, building
  \<^verbatim>\<open>validAccounts\<close>. Reading a property of an element that is \<^verbatim>\<open>null\<close> or \<^verbatim>\<open>undefined\<close>
  throws, which ends the loop. \<open>clock i\<close> is what \<^verbatim>\<open>Date.now()\<close> reads in iteration \<open>i\<close>.
\<close>

fun collect_valid ::
  "(nat \<Rightarrow> int) \<Rightarrow> nat \<Rightarrow> jsval list \<Rightarrow> (jsstring \<rightharpoonup> account_mapping) \<Rightarrow>
     (jsstring \<rightharpoonup> account_mapping) outcome"
where
  "collect_valid clock i [] validAccounts = Returned validAccounts"
| "collect_valid clock i (account # rest) validAccounts =
     (case get_member account ''accountId'' of
        Raised e \<Rightarrow> Raised e
      | Returned ident \<Rightarrow>
          if isValidAccountId ident
          then
            (case get_member account ''accountName'' of
               Raised e \<Rightarrow> Raised e
             | Returned name \<Rightarrow>
                 if isValidAccountName name
                 then collect_valid clock (Suc i) rest
                        (validAccounts(the_string ident \<mapsto>
                           \<lparr>stored_accountId = the_string ident,
                            stored_accountName = sanitizeAccountName name,
                            lastUpdated = clock i\<rparr>))
                 else collect_valid clock (Suc i) rest validAccounts)
          else collect_valid clock (Suc i) rest validAccounts)"

text \<open>\<^verbatim>\<open>error.message\<close> of a caught error.\<close>

definition message_of :: "jsval \<Rightarrow> jsval" where
  "message_of e = get_prop e ''message''"

definition storeAccounts ::
  "(nat \<Rightarrow> int) \<Rightarrow> jsval list \<Rightarrow> local_storage \<Rightarrow> store_result \<times> local_storage"
where
  "storeAccounts clock accounts st =
     (case collect_valid clock 0 accounts Map.empty of
        Raised e \<Rightarrow> (\<lparr>success = False, error = Some (message_of e)\<rparr>, st)
      | Returned validAccounts \<Rightarrow>
          (case storage_set validAccounts 1 st of
             (Raised e, st') \<Rightarrow> (\<lparr>success = False, error = Some (message_of e)\<rparr>, st')
           | (Returned u, st') \<Rightarrow> (\<lparr>success = True, error = None\<rparr>, st')))"

definition getAccountName :: "jsval \<Rightarrow> local_storage \<Rightarrow> name_result" where
  "getAccountName ident st =
     (if \<not> isValidAccountId ident
      then \<lparr>success = False, error = Some (JStr (js_lit ''Invalid account ID'')), accountName = None\<rparr>
      else
        (case storage_get_accounts st of
           Raised e \<Rightarrow> \<lparr>success = False, error = Some (message_of e), accountName = None\<rparr>
         | Returned item \<Rightarrow>
             (let accounts = (case item of None \<Rightarrow> Map.empty | Some stored \<Rightarrow> stored)
              in case accounts (the_string ident) of
                   Some account \<Rightarrow>
                     \<lparr>success = True, error = None, accountName = Some (stored_accountName account)\<rparr>
                 | None \<Rightarrow> \<lparr>success = True, error = None, accountName = None\<rparr>)))"

definition clearAllAccounts :: "local_storage \<Rightarrow> store_result \<times> local_storage" where
  "clearAllAccounts st =
     (case storage_clear st of
        (Raised e, st') \<Rightarrow> (\<lparr>success = False, error = Some (message_of e)\<rparr>, st')
      | (Returned u, st') \<Rightarrow> (\<lparr>success = True, error = None\<rparr>, st'))"

subsection \<open>Describing a batch\<close>

text \<open>A record of a batch is any value but \<^verbatim>\<open>null\<close> and \<^verbatim>\<open>undefined\<close>.\<close>

definition is_record :: "jsval \<Rightarrow> bool" where
  "is_record v = (v \<noteq> JNull \<and> v \<noteq> JUndefined)"

text \<open>
  A record is well formed when its \<open>accountId\<close> is a string of exactly 12 ASCII digits and
  its \<open>accountName\<close> is a string that is not empty after trimming and has, as given, at
  most 256 code units.
\<close>

definition well_formed :: "jsval \<Rightarrow> bool" where
  "well_formed r =
     (is_record r \<and> isValidAccountId (get_prop r ''accountId'') \<and>
      isValidAccountName (get_prop r ''accountName''))"

definition id_of :: "jsval \<Rightarrow> jsstring" where
  "id_of r = the_string (get_prop r ''accountId'')"

definition name_of :: "jsval \<Rightarrow> jsstring" where
  "name_of r = the_string (get_prop r ''accountName'')"

text \<open>
  The name a batch registers for an account id: the trimmed name, cut to 256 code units, of
  the last well-formed record with that id.
\<close>

definition registered_name :: "jsval list \<Rightarrow> jsstring \<Rightarrow> jsstring option" where
  "registered_name batch k =
     (case filter (\<lambda>r. well_formed r \<and> id_of r = k) batch of
        [] \<Rightarrow> None
      | rs \<Rightarrow> Some (substring0 (trim (name_of (last rs))) 256))"

subsection \<open>Concrete batches\<close>

text \<open>
  An empty, working storage area, and records as the portal extractor produces them: one with
  a padded name, one account under two names, one with a five-digit id and one with a blank
  name.
\<close>

definition empty_storage :: local_storage where
  "empty_storage = \<lparr>accounts_item = None, version_item = None, failure = None\<rparr>"

definition account :: "string \<Rightarrow> string \<Rightarrow> jsval" where
  "account i n = JObj [(''accountId'', JStr (js_lit i)), (''accountName'', JStr (js_lit n))]"

definition prod_record :: jsval where
  "prod_record = account ''123456789012'' ''  Prod  ''"

definition dev_record :: jsval where
  "dev_record = account ''210987654321'' ''Dev''"

definition dev_renamed_record :: jsval where
  "dev_renamed_record = account ''210987654321'' ''Development''"

definition short_id_record :: jsval where
  "short_id_record = account ''12345'' ''Short''"

definition blank_name_record :: jsval where
  "blank_name_record = account ''333333333333'' ''   ''"

section \<open>The console display\<close>

text \<open>\<^verbatim>\<open>CONFIG\<close> of the console content script.\<close>

definition CONFIG_maxNameLength :: nat where
  "CONFIG_maxNameLength = 30"

definition CONFIG_displayElementId :: jsstring where
  "CONFIG_displayElementId = js_lit ''aws-account-name-display''"

text \<open>
  \<^verbatim>\<open>truncateText(text, maxLength)\<close> on a string. The test \<^verbatim>\<open>!text\<close> holds of the empty
  string. \<^verbatim>\<open>substring(0, maxLength - 3)\<close> takes a negative end as 0, as the subtraction
  on natural numbers does.
\<close>

definition truncateText :: "jsstring \<Rightarrow> nat \<Rightarrow> jsstring" where
  "truncateText text maxLength =
     (if text = [] then text
      else if length text \<le> maxLength then text
      else substring0 text (maxLength - 3) @ js_lit ''...'')"

text \<open>The \<^verbatim>\<open>span\<close> that \<open>createDisplayElement\<close> creates, and what the function returns.\<close>

record span_element =
  element_id :: jsstring
  className :: jsstring
  textContent :: jsstring
  title :: jsstring
  attributes :: "(string \<times> jsstring) list"

record display =
  displayText :: jsstring
  tooltipText :: jsstring
  element :: span_element

text \<open>
  \<^verbatim>\<open>createDisplayElement(accountName, accountId)\<close> on two strings; \<open>truncateText\<close> is called
  with its default \<open>maxLength\<close>. The tooltip is the template
  \<^verbatim>\<open>`${accountName} (${accountId})`\<close>.
\<close>

definition createDisplayElement :: "jsstring \<Rightarrow> jsstring \<Rightarrow> display" where
  "createDisplayElement name ident =
     (let shown = truncateText name CONFIG_maxNameLength;
          tooltip = name @ js_lit '' ('' @ ident @ js_lit '')''
      in \<lparr>displayText = shown,
          tooltipText = tooltip,
          element =
            \<lparr>element_id = CONFIG_displayElementId,
             className = js_lit ''aws-account-name-display'',
             textContent = shown,
             title = tooltip,
             attributes = [(''data-account-id'', ident), (''data-full-name'', name)]\<rparr>\<rparr>)"

section \<open>Properties of the configuration validator and the backoff calculator\<close>

lemma validateConfig_is_object: "validateConfig c \<Longrightarrow> is_object c"
  by (cases c) (auto simp: validateConfig_def is_object_def split: if_splits)

lemma validateConfig_as_config:
  assumes "validateConfig c"
  shows "\<exists>cfg. as_config c = Some cfg"
  using assms
  by (simp add: validateConfig_def as_config_def split: if_splits option.splits)

lemma as_config_fields:
  assumes "as_config c = Some cfg"
  shows "get_prop c ''maxAttempts'' = JNum (maxAttempts cfg)"
    and "get_prop c ''initialDelay'' = JNum (initialDelay cfg)"
    and "get_prop c ''maxDelay'' = JNum (maxDelay cfg)"
    and "get_prop c ''backoffMultiplier'' = JNum (backoffMultiplier cfg)"
    and "get_prop c ''backoffType'' = backoffType cfg"
proof -
  have n: "\<And>v n. number_of v = Some n \<Longrightarrow> v = JNum n"
    by (case_tac v) simp_all
  from assms show "get_prop c ''maxAttempts'' = JNum (maxAttempts cfg)"
    and "get_prop c ''initialDelay'' = JNum (initialDelay cfg)"
    and "get_prop c ''maxDelay'' = JNum (maxDelay cfg)"
    and "get_prop c ''backoffMultiplier'' = JNum (backoffMultiplier cfg)"
    and "get_prop c ''backoffType'' = backoffType cfg"
    by (auto simp: as_config_def split: option.splits dest: n)
qed

text \<open>What \<open>validateConfig\<close> decides, on the typed view of the configuration.\<close>

lemma validateConfig_iff:
  "validateConfig c \<longleftrightarrow>
     is_object c \<and>
     (\<exists>cfg. as_config c = Some cfg \<and>
        \<not> js_le (maxAttempts cfg) (Fin 0) \<and> \<not> js_lt (initialDelay cfg) (Fin 0) \<and>
        \<not> js_lt (maxDelay cfg) (Fin 0) \<and> \<not> js_le (backoffMultiplier cfg) (Fin 0) \<and>
        \<not> js_lt (maxDelay cfg) (initialDelay cfg))"
  by (cases c) (auto simp: validateConfig_def as_config_def is_object_def split: option.splits if_splits)

text \<open>
  The validator and the specification's reading of validity agree on every configuration
  none of whose four numeric fields is \<open>NaN\<close>.
\<close>

lemma number_satisfyingD:
  "number_satisfying P v \<Longrightarrow> \<exists>n. v = JNum n \<and> P n"
  by (cases v) (simp_all add: number_satisfying_def)

lemma js_lt_0_not_le: "js_lt (Fin 0) x \<Longrightarrow> \<not> js_le x (Fin 0)"
  by (cases x) auto

lemma js_le_0_not_lt: "js_le (Fin 0) x \<Longrightarrow> \<not> js_lt x (Fin 0)"
  by (cases x) auto

lemma js_le_not_gt: "js_le x y \<Longrightarrow> \<not> js_lt y x"
  by (cases x; cases y) auto

lemma spec_valid_config_imp_validateConfig:
  assumes "spec_valid_config c"
  shows "validateConfig c"
proof -
  from assms have obj: "is_object c"
    by (simp add: spec_valid_config_def)
  from assms obtain a where a: "get_prop c ''maxAttempts'' = JNum a" "js_lt (Fin 0) a"
    unfolding spec_valid_config_def by (blast dest: number_satisfyingD)
  from assms obtain i where i: "get_prop c ''initialDelay'' = JNum i" "js_le (Fin 0) i"
    unfolding spec_valid_config_def by (blast dest: number_satisfyingD)
  from assms obtain m where m: "get_prop c ''maxDelay'' = JNum m" "js_le (Fin 0) m"
    unfolding spec_valid_config_def by (blast dest: number_satisfyingD)
  from assms obtain b where b: "get_prop c ''backoffMultiplier'' = JNum b" "js_lt (Fin 0) b"
    unfolding spec_valid_config_def by (blast dest: number_satisfyingD)
  from assms i(1) m(1) have im: "js_le i m"
    by (simp add: spec_valid_config_def number_satisfying_def)
  have "as_config c = Some \<lparr>maxAttempts = a, initialDelay = i, maxDelay = m,
      backoffMultiplier = b, backoffType = get_prop c ''backoffType''\<rparr>"
    by (simp add: as_config_def a(1) i(1) m(1) b(1))
  with obj a(2) i(2) m(2) b(2) im show ?thesis
    by (simp add: validateConfig_iff js_lt_0_not_le js_le_0_not_lt js_le_not_gt)
qed

lemma validateConfig_imp_spec_valid_config:
  assumes "validateConfig c" and "as_config c = Some cfg"
    and "maxAttempts cfg \<noteq> NaN" and "initialDelay cfg \<noteq> NaN"
    and "maxDelay cfg \<noteq> NaN" and "backoffMultiplier cfg \<noteq> NaN"
  shows "spec_valid_config c"
proof -
  have le: "\<And>x. x \<noteq> NaN \<Longrightarrow> \<not> js_le x (Fin 0) \<Longrightarrow> js_lt (Fin 0) x"
    by (case_tac x) auto
  have lt: "\<And>x y. x \<noteq> NaN \<Longrightarrow> y \<noteq> NaN \<Longrightarrow> \<not> js_lt x y \<Longrightarrow> js_le y x"
    by (case_tac x; case_tac y) auto
  from assms(1,2) have v: "is_object c"
    "\<not> js_le (maxAttempts cfg) (Fin 0)" "\<not> js_lt (initialDelay cfg) (Fin 0)"
    "\<not> js_lt (maxDelay cfg) (Fin 0)" "\<not> js_le (backoffMultiplier cfg) (Fin 0)"
    "\<not> js_lt (maxDelay cfg) (initialDelay cfg)"
    by (auto simp: validateConfig_iff)
  show ?thesis
    unfolding spec_valid_config_def number_satisfying_def
    using v assms(3-6) as_config_fields[OF assms(2)]
    by (simp add: le lt)
qed

text \<open>Rounding leaves an integer of magnitude at most 2^53 as it is.\<close>

lemma round_half_even_int: "round_half_even (of_int z) = z"
  by (simp add: round_half_even_def)

lemma nearest_magnitude_int:
  assumes "1 \<le> k" and "k \<le> 2 ^ 53"
  shows "nearest_magnitude (of_int k) = of_int k"
proof -
  define a :: real where "a = of_int k"
  define L where "L = \<lfloor>log 2 a\<rfloor>"
  from assms(1) have a1: "1 \<le> a" unfolding a_def by simp
  from assms(2) have a53: "a \<le> 2 ^ 53" unfolding a_def
    by (metis of_int_le_iff of_int_numeral of_int_power)
  have "\<lfloor>log 2 a\<rfloor> = L \<longleftrightarrow> 2 powr of_int L \<le> a \<and> a < 2 powr of_int (L + 1)"
    by (rule floor_log_eq_powr_iff) (use a1 in simp_all)
  then have lo: "2 powr of_int L \<le> a" and hi: "a < 2 powr of_int (L + 1)"
    by (simp_all add: L_def)
  have "2 powr 0 < 2 powr (of_int (L + 1) :: real)"
    using a1 hi by simp
  then have L0: "0 \<le> L" by (simp only: powr_less_cancel_iff)
  have "2 powr (of_int L :: real) \<le> 2 powr 53"
    using lo a53 by simp
  then have L53: "L \<le> 53" by (simp only: powr_le_cancel_iff)
  have e: "ulp_exponent a = L - 52"
    using L0 by (simp add: ulp_exponent_def L_def)
  define d where "d = L - 52"
  have pw: "2 powr (of_int d :: real) = (if 0 \<le> d then 2 ^ nat d else inverse (2 ^ nat (- d)))"
    by (rule powr_real_of_int) simp
  have v: "of_int (round_half_even (a / 2 powr of_int d)) * 2 powr of_int d = a"
  proof (cases "0 \<le> d")
    case False
    then have p: "2 powr (of_int d :: real) = inverse (2 ^ nat (- d))"
      by (simp add: pw)
    have "a / 2 powr of_int d = of_int (k * 2 ^ nat (- d))"
      by (simp add: p a_def divide_inverse)
    then have "round_half_even (a / 2 powr of_int d) = k * 2 ^ nat (- d)"
      by (simp only: round_half_even_int)
    then show ?thesis
      by (simp add: p a_def)
  next
    case True
    show ?thesis
    proof (cases "d = 0")
      case True
      have "round_half_even (a / 2 powr of_int d) = k"
        unfolding True a_def by (simp add: round_half_even_int)
      then show ?thesis by (simp add: True a_def)
    next
      case False
      with True L53 have d1: "d = 1" by (simp add: d_def)
      then have L: "L = 53" by (simp add: d_def)
      from lo have "2 ^ 53 \<le> a" by (simp add: L)
      with a53 have a: "a = 2 ^ 53" by simp
      have "a / 2 powr of_int d = of_int (2 ^ 52)"
        by (simp add: d1 a)
      then have "round_half_even (a / 2 powr of_int d) = 2 ^ 52"
        by (simp only: round_half_even_int)
      then show ?thesis
        by (simp add: d1 a)
    qed
  qed
  show ?thesis
    unfolding a_def[symmetric] nearest_magnitude_def Let_def e d_def[symmetric] by (rule v)
qed

lemma round_double_int:
  assumes "\<bar>k\<bar> \<le> 2 ^ 53"
  shows "round_double (of_int k) = Fin (of_int k)"
proof (cases "k = 0")
  case True
  then show ?thesis by (simp add: round_double_def)
next
  case False
  then have "1 \<le> \<bar>k\<bar>" by simp
  from nearest_magnitude_int[OF this assms]
  have n: "nearest_magnitude \<bar>of_int k\<bar> = \<bar>of_int k\<bar>" by simp
  have "\<bar>of_int k :: real\<bar> \<le> 2 ^ 53"
    using assms by (metis of_int_abs of_int_le_iff of_int_numeral of_int_power)
  then have small: "\<not> (2 ^ 1024 \<le> \<bar>of_int k :: real\<bar>)" by simp
  have sg: "sgn (of_int k :: real) * \<bar>of_int k\<bar> = of_int k"
    by (simp add: sgn_if)
  from False have x0: "(of_int k :: real) \<noteq> 0" by simp
  show ?thesis
    unfolding round_double_def n using x0 small sg by simp
qed

lemma round_double_numeral:
  "numeral w \<le> (2 ^ 53 :: int) \<Longrightarrow> round_double (numeral w) = Fin (numeral w)"
  using round_double_int[of "numeral w"] by simp

lemma round_double_0: "round_double 0 = Fin 0"
  by (simp add: round_double_def)

lemma round_double_1: "round_double 1 = Fin 1"
  using round_double_int[of 1] by simp


text \<open>The product \<open>2^1023 * 2\<close> is beyond the largest double and is \<^verbatim>\<open>Infinity\<close>.\<close>

lemma round_double_overflow: "round_double (2 ^ 1023 * 2) = PosInf"
proof -
  let ?a = "2 ^ 1024 :: real"
  have "\<lfloor>log 2 ?a\<rfloor> = 1024 \<longleftrightarrow> 2 powr of_int 1024 \<le> ?a \<and> ?a < 2 powr of_int (1024 + 1)"
    by (rule floor_log_eq_powr_iff) simp_all
  then have L: "\<lfloor>log 2 ?a\<rfloor> = 1024" by simp
  have e: "ulp_exponent ?a = 972" by (simp only: ulp_exponent_def L)
  have q: "?a / 2 powr of_int 972 = of_int (2 ^ 52)" by simp
  have n: "nearest_magnitude ?a = 2 ^ 1024"
    unfolding nearest_magnitude_def Let_def e q round_half_even_int by simp
  have x: "(2 ^ 1023 * 2 :: real) = ?a" by simp
  have abs: "\<bar>?a\<bar> = ?a" by simp
  show ?thesis
    unfolding x round_double_def abs n by (simp add: signed_inf_def)
qed

text \<open>
  The double nearest to one tenth is \<open>3602879701896397 / 2^55\<close>; three times it is half-way
  between two doubles and rounds to \<open>5404319552844596 / 2^54\<close>, which the language prints as
  \<open>0.30000000000000004\<close>.
\<close>

lemma round_double_three_tenths:
  "round_double (3602879701896397 / 2 ^ 55 * 3) = Fin (5404319552844596 / 2 ^ 54)"
proof -
  let ?a = "10808639105689191 / 2 ^ 55 :: real"
  have "\<lfloor>log 2 ?a\<rfloor> = - 2 \<longleftrightarrow> 2 powr of_int (- 2) \<le> ?a \<and> ?a < 2 powr of_int (- 2 + 1)"
    by (rule floor_log_eq_powr_iff) simp_all
  moreover have "2 powr (of_int (- 2) :: real) = 1 / 4" "2 powr (of_int (- 2 + 1) :: real) = 1 / 2"
    by (simp_all add: powr_minus_divide)
  ultimately have L: "\<lfloor>log 2 ?a\<rfloor> = - 2" by simp
  have e: "ulp_exponent ?a = - 54" by (simp only: ulp_exponent_def L)
  have p: "2 powr (of_int (- 54) :: real) = 1 / 2 ^ 54"
    by (simp add: powr_minus_divide)
  have q: "?a / 2 powr of_int (- 54) = 10808639105689191 / 2"
    unfolding p by simp
  have f: "\<lfloor>10808639105689191 / 2 :: real\<rfloor> = 5404319552844595"
    by (simp add: floor_eq_iff)
  have m: "round_half_even (10808639105689191 / 2) = 5404319552844596"
    unfolding round_half_even_def f by simp
  have n: "nearest_magnitude ?a = 5404319552844596 / 2 ^ 54"
    unfolding nearest_magnitude_def Let_def e q m by (simp add: powr_minus_divide)
  have x: "(3602879701896397 / 2 ^ 55 * 3 :: real) = ?a" by simp
  have abs: "\<bar>?a\<bar> = ?a" by simp
  show ?thesis
    unfolding x round_double_def abs n by simp
qed


lemma validateConfig_portal: "validateConfig RETRY_CONFIG_portal"
  by (simp add: validateConfig_def RETRY_CONFIG_portal_def)

lemma as_config_portal:
  "as_config RETRY_CONFIG_portal =
     Some \<lparr>maxAttempts = Fin 5, initialDelay = Fin 200, maxDelay = Fin 2000,
           backoffMultiplier = Fin 2, backoffType = JStr (js_lit ''exponential'')\<rparr>"
  by (simp add: as_config_def RETRY_CONFIG_portal_def)


lemma Math_min_Fin: "Math_min (Fin x) (Fin y) = Fin (min x y)"
  by simp


lemma validateConfig_console: "validateConfig RETRY_CONFIG_console"
  by (simp add: validateConfig_def RETRY_CONFIG_console_def)




text \<open>
  Claim C3. The specification: \<open>validateConfig\<close> is true if and only if the configuration
  is an object, \<open>maxAttempts\<close> and \<open>backoffMultiplier\<close> are numbers \<open>> 0\<close>,
  \<open>initialDelay\<close> and \<open>maxDelay\<close> are numbers \<open>\<ge> 0\<close> and \<open>maxDelay \<ge> initialDelay\<close>.
  The code tests \<^verbatim>\<open>typeof maxAttempts !== 'number' || maxAttempts <= 0\<close>: \<open>NaN\<close> is a number
  and \<open>NaN <= 0\<close> is false, so a configuration with \<open>maxAttempts = NaN\<close> is accepted
  though \<open>NaN\<close> is not \<open>> 0\<close>.
\<close>

theorem validateConfig_accepts_NaN:
  "validateConfig nan_attempts_config = True \<and> spec_valid_config nan_attempts_config = False"
  by (simp add: validateConfig_def spec_valid_config_def nan_attempts_config_def
      number_satisfying_def is_object_def)

section \<open>Properties of the retry executor\<close>

lemma iteration_cases:
  "(\<exists>lr s' evs. iteration fn cfg a lastResult s = (Normal lr, s', evs)) \<or>
   (\<exists>v s' evs. iteration fn cfg a lastResult s = (Return v, s', evs))"
  by (auto simp: iteration_def try_block_def split: prod.splits outcome.splits completion.splits)

lemma iteration_not_Throw: "iteration fn cfg a lastResult s \<noteq> (Throw e, s', evs)"
  by (auto simp: iteration_def try_block_def split: prod.splits outcome.splits completion.splits)

lemma count_calls_append: "count_calls (xs @ ys) = count_calls xs + count_calls ys"
  by (simp add: count_calls_def)

lemma iteration_fail:
  assumes "\<not> succeeds (fst (fn s))"
  shows "\<exists>evs. iteration fn cfg a lastResult s = (Normal (observe lastResult (fst (fn s))), snd (fn s), evs)
      \<and> count_calls evs = 1"
  using assms
  by (cases "fn s"; cases "fst (fn s)")
     (auto simp: iteration_def try_block_def catch_block_def count_calls_def)

lemma iteration_success:
  assumes "fst (fn s) = Returned v" "truthy v"
  shows "\<exists>evs. iteration fn cfg a lastResult s = (Return v, snd (fn s), evs) \<and> count_calls evs = 1"
  using assms
  by (cases "fn s") (auto simp: iteration_def try_block_def count_calls_def)

text \<open>An iteration never completes by a throw, so the loop never rejects.\<close>

lemma retry_loop_never_raises:
  assumes "retry_loop fn cfg a lastResult s = Some y"
  shows "\<exists>v. fst y = Returned v"
  using assms
proof (induction fn cfg a lastResult s y rule: retry_loop.raw_induct[rotated 1, consumes 1])
  case (1 rl fn cfg a lastResult s y)
  show ?case
  proof (cases "js_lt (Fin (real a)) (maxAttempts cfg)")
    case False
    with 1(2) show ?thesis by auto
  next
    case True
    from iteration_cases[of fn cfg a lastResult s] show ?thesis
    proof (elim disjE exE)
      fix lr s' evs
      assume it: "iteration fn cfg a lastResult s = (Normal lr, s', evs)"
      with True 1(2) obtain y' where "rl fn cfg (Suc a) lr s' = Some y'" "fst y = fst y'"
        by (auto split: Option.bind_splits)
      with 1(1) show ?thesis by metis
    next
      fix v s' evs
      assume "iteration fn cfg a lastResult s = (Return v, s', evs)"
      with True 1(2) show ?thesis by auto
    qed
  qed
qed

lemma attempt_limit_bound:
  assumes "x \<noteq> PosInf"
  shows "js_lt (Fin (real a)) x = (a < attempt_limit x)"
proof (cases x)
  case (Fin r)
  have "(a < nat \<lceil>r\<rceil>) = (int a < \<lceil>r\<rceil>)" by linarith
  also have "\<dots> = (real a < r)" by (simp add: less_ceiling_iff)
  finally show ?thesis using Fin by simp
qed (use assms in simp_all)

lemma probe_state_0: "probe_state fn s 0 = s"
  by (simp add: probe_state_def)

lemma probe_state_Suc: "probe_state fn (snd (fn s)) i = probe_state fn s (Suc i)"
proof -
  have "((\<lambda>t. snd (fn t)) ^^ i) ((\<lambda>t. snd (fn t)) s) = (\<lambda>t. snd (fn t)) (((\<lambda>t. snd (fn t)) ^^ i) s)"
    by (rule funpow_swap1[symmetric])
  then show ?thesis by (simp add: probe_state_def)
qed

lemma nth_outcome_0: "nth_outcome fn s 0 = fst (fn s)"
  by (simp add: nth_outcome_def probe_state_0)

lemma nth_outcome_Suc: "nth_outcome fn (snd (fn s)) i = nth_outcome fn s (Suc i)"
  by (simp add: nth_outcome_def probe_state_Suc)

lemma observed_Suc:
  "foldl observe (observe lr (fst (fn s))) (map (nth_outcome fn (snd (fn s))) [0..<d]) =
   foldl observe lr (map (nth_outcome fn s) [0..<Suc d])"
proof -
  have "[0..<Suc d] = 0 # map Suc [0..<d]"
    by (simp add: upt_conv_Cons map_Suc_upt del: upt_Suc)
  then show ?thesis
    by (simp add: nth_outcome_0 nth_outcome_Suc[symmetric] comp_def del: upt_Suc)
qed

lemma retry_loop_exhausts:
  assumes bound: "\<And>a. js_lt (Fin (real a)) (maxAttempts cfg) = (a < n)"
    and fail: "\<And>i. i < n - a \<Longrightarrow> \<not> succeeds (nth_outcome fn s i)"
  shows "\<exists>evs. retry_loop fn cfg a lr s =
            Some (Returned (foldl observe lr (map (nth_outcome fn s) [0..<n - a])),
                  probe_state fn s (n - a), evs) \<and>
          count_calls evs = n - a"
  using fail
proof (induction "n - a" arbitrary: a lr s)
  case 0
  then have "\<not> a < n" by simp
  then show ?case
    using 0(1)[symmetric]
    by (subst retry_loop.simps) (simp add: bound probe_state_0 count_calls_def)
next
  case (Suc d)
  then have lt: "a < n" and d: "d = n - Suc a" by simp_all
  from Suc(2) have f0: "\<not> succeeds (fst (fn s))"
    using Suc.prems[of 0] by (simp add: nth_outcome_0)
  from iteration_fail[where fn=fn and s=s and cfg=cfg and a=a and lastResult=lr, OF f0] obtain evs1 where
    it: "iteration fn cfg a lr s = (Normal (observe lr (fst (fn s))), snd (fn s), evs1)"
    and c1: "count_calls evs1 = 1" by blast
  have "\<And>i. i < n - Suc a \<Longrightarrow> \<not> succeeds (nth_outcome fn (snd (fn s)) i)"
    using Suc.prems by (simp add: nth_outcome_Suc)
  from Suc(1)[OF d this, of "observe lr (fst (fn s))"] obtain evs2 where
    rec: "retry_loop fn cfg (Suc a) (observe lr (fst (fn s))) (snd (fn s)) =
            Some (Returned (foldl observe (observe lr (fst (fn s)))
                    (map (nth_outcome fn (snd (fn s))) [0..<n - Suc a])),
                  probe_state fn (snd (fn s)) (n - Suc a), evs2)"
    and c2: "count_calls evs2 = n - Suc a" by blast
  have n: "n - a = Suc (n - Suc a)" using lt by simp
  show ?case
    apply (subst retry_loop.simps)
    apply (simp only: bound lt if_True it prod.case completion.case rec Option.bind.simps)
    apply (simp only: n observed_Suc probe_state_Suc)
    apply (simp add: count_calls_append c1 c2)
    done
qed

lemma retry_loop_succeeds_at:
  assumes bound: "\<And>a. js_lt (Fin (real a)) (maxAttempts cfg) = (a < n)"
    and "a + k < n"
    and "\<And>i. i < k \<Longrightarrow> \<not> succeeds (nth_outcome fn s i)"
    and "nth_outcome fn s k = Returned v" and "truthy v"
  shows "\<exists>evs. retry_loop fn cfg a lr s = Some (Returned v, probe_state fn s (Suc k), evs) \<and>
          count_calls evs = Suc k"
  using assms(2-)
proof (induction k arbitrary: a lr s)
  case 0
  then have lt: "a < n" by simp
  from 0 have "fst (fn s) = Returned v" by (simp add: nth_outcome_0)
  from iteration_success[where fn=fn and s=s and cfg=cfg and a=a and lastResult=lr, OF this \<open>truthy v\<close>] obtain evs where
    it: "iteration fn cfg a lr s = (Return v, snd (fn s), evs)" and c: "count_calls evs = 1"
    by blast
  have ps: "probe_state fn s (Suc 0) = snd (fn s)"
    by (simp add: probe_state_def)
  show ?case
    apply (subst retry_loop.simps)
    apply (simp only: bound lt if_True it prod.case completion.case ps)
    apply (simp add: c)
    done
next
  case (Suc k)
  then have lt: "a < n" and lt': "Suc a + k < n" by simp_all
  from Suc.prems(2)[of 0] have f0: "\<not> succeeds (fst (fn s))"
    by (simp add: nth_outcome_0)
  from iteration_fail[where fn=fn and s=s and cfg=cfg and a=a and lastResult=lr, OF f0] obtain evs1 where
    it: "iteration fn cfg a lr s = (Normal (observe lr (fst (fn s))), snd (fn s), evs1)"
    and c1: "count_calls evs1 = 1" by blast
  have fails: "\<And>i. i < k \<Longrightarrow> \<not> succeeds (nth_outcome fn (snd (fn s)) i)"
    using Suc.prems(2) by (simp add: nth_outcome_Suc)
  have hit: "nth_outcome fn (snd (fn s)) k = Returned v"
    using Suc.prems(3) by (simp add: nth_outcome_Suc)
  from Suc.IH[OF lt' fails hit \<open>truthy v\<close>, of "observe lr (fst (fn s))"] obtain evs2 where
    rec: "retry_loop fn cfg (Suc a) (observe lr (fst (fn s))) (snd (fn s)) =
            Some (Returned v, probe_state fn (snd (fn s)) (Suc k), evs2)"
    and c2: "count_calls evs2 = Suc k" by blast
  show ?case
    apply (subst retry_loop.simps)
    apply (simp only: bound lt if_True it prod.case completion.case rec Option.bind.simps)
    apply (simp add: probe_state_Suc count_calls_append c1 c2)
    done
qed

lemma iteration_count: "iteration fn cfg a lr s = (c, s', evs) \<Longrightarrow> count_calls evs = 1"
  by (auto simp: iteration_def try_block_def catch_block_def count_calls_def
      split: prod.splits outcome.splits completion.splits if_splits)

lemma retry_loop_terminates:
  assumes bound: "\<And>a. js_lt (Fin (real a)) (maxAttempts cfg) = (a < n)"
  shows "\<exists>v s' evs. retry_loop fn cfg a lr s = Some (Returned v, s', evs) \<and>
          count_calls evs \<le> n - a"
proof (induction "n - a" arbitrary: a lr s)
  case 0
  then have "\<not> a < n" by simp
  then show ?case
    by (subst retry_loop.simps) (simp add: bound count_calls_def)
next
  case (Suc d)
  then have lt: "a < n" and d: "d = n - Suc a" by simp_all
  from iteration_cases[of fn cfg a lr s] show ?case
  proof (elim disjE exE)
    fix lr' s' evs
    assume it: "iteration fn cfg a lr s = (Normal lr', s', evs)"
    from Suc(1)[OF d, of lr' s'] obtain v s'' evs2 where
      rec: "retry_loop fn cfg (Suc a) lr' s' = Some (Returned v, s'', evs2)"
      and c2: "count_calls evs2 \<le> n - Suc a" by blast
    show ?thesis
      apply (subst retry_loop.simps)
      apply (simp only: bound lt if_True it prod.case completion.case rec Option.bind.simps)
      using c2 lt apply (simp add: count_calls_append iteration_count[OF it])
      done
  next
    fix v s' evs
    assume it: "iteration fn cfg a lr s = (Return v, s', evs)"
    show ?thesis
      apply (subst retry_loop.simps)
      apply (simp only: bound lt if_True it prod.case completion.case)
      using lt apply (simp add: iteration_count[OF it])
      done
  qed
qed

lemma bind_append_Nil:
  "Option.bind m (\<lambda>(r, s', evs). Some (r, s', [] @ evs)) = m"
  by (cases m) auto

lemma retryWithBackoff_valid:
  assumes "validateConfig c" and "as_config c = Some cfg"
  shows "retryWithBackoff fn c s = retry_loop fn cfg 0 JNull s"
  using assms by (simp add: retryWithBackoff_def bind_append_Nil)

lemma retryWithBackoff_invalid:
  assumes "\<not> validateConfig c"
  shows "retryWithBackoff fn c s =
     Option.bind (retryWithBackoff fn RETRY_CONFIG_portal s)
       (\<lambda>(r, s', evs). Some (r, s', Warn_invalid_config # evs))"
  using assms validateConfig_portal
  by (simp add: retryWithBackoff_def as_config_portal bind_append_Nil)

lemma retryWithBackoff_never_raises:
  "retryWithBackoff fn c s \<noteq> Some (Raised e, s', evs)"
proof
  assume r: "retryWithBackoff fn c s = Some (Raised e, s', evs)"
  then obtain cfg y where "retry_loop fn cfg 0 JNull s = Some y" and "fst y = Raised e"
    by (auto simp: retryWithBackoff_def Let_def split: if_splits option.splits Option.bind_splits)
  with retry_loop_never_raises show False by fastforce
qed

text \<open>The configuration the loop runs under always has numeric fields.\<close>

lemma effective_config_numeric:
  "\<exists>cfg. as_config (if \<not> validateConfig c then RETRY_CONFIG_portal else c) = Some cfg"
  by (simp add: as_config_portal validateConfig_as_config)

text \<open>
  Claim C1. For a valid configuration whose \<open>maxAttempts\<close> is the count \<open>m\<close>: when none of
  the first \<open>m\<close> calls of the probe succeeds (each returns a falsy value or throws),
  \<open>retryWithBackoff\<close> returns after calling the probe exactly \<open>m\<close> times; when the probe
  first returns a truthy value \<open>v\<close> on its \<open>k\<close>-th call, \<open>k \<le> m\<close>, it returns \<open>v\<close>
  after calling the probe exactly \<open>k\<close> times.
\<close>

theorem retryWithBackoff_probe_invocations:
  assumes "validateConfig c" and "get_prop c ''maxAttempts'' = JNum (Fin (real m))"
  shows "((\<forall>i<m. \<not> succeeds (nth_outcome fn s i)) \<longrightarrow>
            (\<exists>r s' evs. retryWithBackoff fn c s = Some (r, s', evs) \<and> count_calls evs = m)) \<and>
         (\<forall>k v. 1 \<le> k \<and> k \<le> m \<and> (\<forall>i<k - 1. \<not> succeeds (nth_outcome fn s i)) \<and>
                nth_outcome fn s (k - 1) = Returned v \<and> truthy v \<longrightarrow>
            (\<exists>s' evs. retryWithBackoff fn c s = Some (Returned v, s', evs) \<and> count_calls evs = k))"
proof -
  from assms(1) obtain cfg where cfg: "as_config c = Some cfg"
    using validateConfig_as_config by blast
  with assms(2) have m: "maxAttempts cfg = Fin (real m)"
    using as_config_fields(1)[OF cfg] by simp
  have bound: "\<And>a. js_lt (Fin (real a)) (maxAttempts cfg) = (a < m)"
    by (simp add: m)
  have run: "retryWithBackoff fn c s = retry_loop fn cfg 0 JNull s"
    using assms(1) cfg by (rule retryWithBackoff_valid)
  show ?thesis
  proof (intro conjI allI impI)
    assume "\<forall>i<m. \<not> succeeds (nth_outcome fn s i)"
    then have "\<And>i. i < m - 0 \<Longrightarrow> \<not> succeeds (nth_outcome fn s i)" by simp
    from retry_loop_exhausts[where cfg=cfg and n=m and a=0 and fn=fn and s=s and lr=JNull,
        OF bound this]
    show "\<exists>r s' evs. retryWithBackoff fn c s = Some (r, s', evs) \<and> count_calls evs = m"
      unfolding run by auto
  next
    fix k v
    assume h: "1 \<le> k \<and> k \<le> m \<and> (\<forall>i<k - 1. \<not> succeeds (nth_outcome fn s i)) \<and>
                nth_outcome fn s (k - 1) = Returned v \<and> truthy v"
    then have lt: "0 + (k - 1) < m" by linarith
    from h have fails: "\<And>i. i < k - 1 \<Longrightarrow> \<not> succeeds (nth_outcome fn s i)" by simp
    from h have hit: "nth_outcome fn s (k - 1) = Returned v" and tr: "truthy v" by simp_all
    from retry_loop_succeeds_at[where cfg=cfg and n=m and a=0 and k="k - 1" and fn=fn and s=s
        and lr=JNull and v=v, OF bound lt fails hit tr] h
    show "\<exists>s' evs. retryWithBackoff fn c s = Some (Returned v, s', evs) \<and> count_calls evs = k"
      unfolding run by auto
  qed
qed

lemma last_observed_final:
  assumes "0 < n" and "nth_outcome fn s (n - 1) = Returned v"
  shows "last_observed fn s n = v"
proof -
  from assms(1) obtain d where n: "n = Suc d" by (cases n) auto
  with assms(2) show ?thesis by (simp add: last_observed_def)
qed

text \<open>
  Claim C4. For a valid configuration and a probe none of whose calls succeeds,
  \<open>retryWithBackoff\<close> never ends with an exception; and unless \<open>maxAttempts\<close> is
  \<open>Infinity\<close> it returns, after as many calls as the loop condition allows, the last value
  a call returned (\<^verbatim>\<open>null\<close> when every call threw). In particular, when the final attempt
  returned the falsy value \<open>v\<close>, the result is \<open>v\<close>.
\<close>

theorem retryWithBackoff_exhaustion:
  assumes "validateConfig c" and "\<forall>i. \<not> succeeds (nth_outcome fn s i)"
  shows "(\<forall>e s' evs. retryWithBackoff fn c s \<noteq> Some (Raised e, s', evs)) \<and>
         (\<forall>n. get_prop c ''maxAttempts'' = JNum n \<and> n \<noteq> PosInf \<longrightarrow>
            (\<exists>s' evs. retryWithBackoff fn c s =
                 Some (Returned (last_observed fn s (attempt_limit n)), s', evs) \<and>
               count_calls evs = attempt_limit n) \<and>
            (\<forall>v. 0 < attempt_limit n \<and> nth_outcome fn s (attempt_limit n - 1) = Returned v \<longrightarrow>
               last_observed fn s (attempt_limit n) = v))"
proof (intro conjI allI impI)
  fix e s' evs
  show "retryWithBackoff fn c s \<noteq> Some (Raised e, s', evs)"
    by (rule retryWithBackoff_never_raises)
next
  fix n
  assume n: "get_prop c ''maxAttempts'' = JNum n \<and> n \<noteq> PosInf"
  from assms(1) obtain cfg where cfg: "as_config c = Some cfg"
    using validateConfig_as_config by blast
  with n have m: "maxAttempts cfg = n"
    using as_config_fields(1)[OF cfg] by simp
  have bound: "\<And>a. js_lt (Fin (real a)) (maxAttempts cfg) = (a < attempt_limit n)"
    unfolding m using n by (intro attempt_limit_bound) simp
  have run: "retryWithBackoff fn c s = retry_loop fn cfg 0 JNull s"
    using assms(1) cfg by (rule retryWithBackoff_valid)
  have "\<exists>evs. retry_loop fn cfg 0 JNull s =
            Some (Returned (foldl observe JNull (map (nth_outcome fn s) [0..<attempt_limit n - 0])),
                  probe_state fn s (attempt_limit n - 0), evs) \<and>
          count_calls evs = attempt_limit n - 0"
    by (rule retry_loop_exhausts[OF bound]) (use assms(2) in simp)
  then obtain evs where
    "retry_loop fn cfg 0 JNull s =
       Some (Returned (foldl observe JNull (map (nth_outcome fn s) [0..<attempt_limit n])),
             probe_state fn s (attempt_limit n), evs)"
    and "count_calls evs = attempt_limit n"
    unfolding diff_zero by blast
  then show "\<exists>s' evs. retryWithBackoff fn c s =
           Some (Returned (last_observed fn s (attempt_limit n)), s', evs) \<and>
         count_calls evs = attempt_limit n"
    unfolding run last_observed_def by blast
next
  fix n v
  assume "0 < attempt_limit n \<and> nth_outcome fn s (attempt_limit n - 1) = Returned v"
  then show "last_observed fn s (attempt_limit n) = v"
    using last_observed_final[of "attempt_limit n" fn s v] by simp
qed

text \<open>The waits of a run, besides its result and the number of its calls.\<close>

lemma sleeps_append: "sleeps (xs @ ys) = sleeps xs @ sleeps ys"
  by (induction xs rule: sleeps.induct) simp_all

lemma iteration_fail_events:
  assumes "\<not> succeeds (fst (fn s))"
  shows "\<exists>evs. iteration fn cfg a lr s = (Normal (observe lr (fst (fn s))), snd (fn s), evs) \<and>
           count_calls evs = 1 \<and>
           sleeps evs = (if js_lt (Fin (real a)) (js_pred (maxAttempts cfg))
                         then [calculateDelay a cfg] else [])"
  using assms
  by (cases "fn s"; cases "fst (fn s)")
     (auto simp: iteration_def try_block_def catch_block_def count_calls_def)

lemma iteration_success_events:
  assumes "fst (fn s) = Returned v" and "truthy v"
  shows "\<exists>evs. iteration fn cfg a lr s = (Return v, snd (fn s), evs) \<and>
           count_calls evs = 1 \<and> sleeps evs = []"
  using assms
  by (cases "fn s") (auto simp: iteration_def try_block_def count_calls_def)

lemma retry_loop_exhausts_delays:
  assumes bound: "\<And>a. js_lt (Fin (real a)) (maxAttempts cfg) = (a < n)"
    and wait: "\<And>a. js_lt (Fin (real a)) (js_pred (maxAttempts cfg)) = (Suc a < n)"
    and fail: "\<And>i. i < n - a \<Longrightarrow> \<not> succeeds (nth_outcome fn s i)"
  shows "\<exists>evs. retry_loop fn cfg a lr s =
            Some (Returned (foldl observe lr (map (nth_outcome fn s) [0..<n - a])),
                  probe_state fn s (n - a), evs) \<and>
          count_calls evs = n - a \<and>
          sleeps evs = map (\<lambda>j. calculateDelay j cfg) [a..<n - 1]"
  using fail
proof (induction "n - a" arbitrary: a lr s)
  case 0
  then have "\<not> a < n" by simp
  then show ?case
    using 0(1)[symmetric]
    by (subst retry_loop.simps) (simp add: bound probe_state_0 count_calls_def)
next
  case (Suc d)
  then have lt: "a < n" and d: "d = n - Suc a" by simp_all
  from Suc(2) have f0: "\<not> succeeds (fst (fn s))"
    using Suc.prems[of 0] by (simp add: nth_outcome_0)
  from iteration_fail_events[where fn=fn and s=s and cfg=cfg and a=a and lr=lr, OF f0]
  obtain evs1 where
    it: "iteration fn cfg a lr s = (Normal (observe lr (fst (fn s))), snd (fn s), evs1)"
    and c1: "count_calls evs1 = 1"
    and s1: "sleeps evs1 = (if Suc a < n then [calculateDelay a cfg] else [])"
    unfolding wait by blast
  have "\<And>i. i < n - Suc a \<Longrightarrow> \<not> succeeds (nth_outcome fn (snd (fn s)) i)"
    using Suc.prems by (simp add: nth_outcome_Suc)
  from Suc(1)[OF d this, of "observe lr (fst (fn s))"] obtain evs2 where
    rec: "retry_loop fn cfg (Suc a) (observe lr (fst (fn s))) (snd (fn s)) =
            Some (Returned (foldl observe (observe lr (fst (fn s)))
                    (map (nth_outcome fn (snd (fn s))) [0..<n - Suc a])),
                  probe_state fn (snd (fn s)) (n - Suc a), evs2)"
    and c2: "count_calls evs2 = n - Suc a"
    and s2: "sleeps evs2 = map (\<lambda>j. calculateDelay j cfg) [Suc a..<n - 1]" by blast
  have n: "n - a = Suc (n - Suc a)" using lt by simp
  have sl: "sleeps (evs1 @ evs2) = map (\<lambda>j. calculateDelay j cfg) [a..<n - 1]"
  proof (cases "Suc a < n")
    case True
    then have "[a..<n - 1] = a # [Suc a..<n - 1]"
      by (simp add: upt_conv_Cons)
    with True show ?thesis by (simp add: sleeps_append s1 s2)
  next
    case False
    then show ?thesis by (simp add: sleeps_append s1 s2)
  qed
  show ?case
    apply (subst retry_loop.simps)
    apply (simp only: bound lt if_True it prod.case completion.case rec Option.bind.simps)
    apply (simp only: n observed_Suc probe_state_Suc)
    apply (simp add: count_calls_append c1 c2 sl)
    done
qed

lemma retry_loop_succeeds_delays:
  assumes bound: "\<And>a. js_lt (Fin (real a)) (maxAttempts cfg) = (a < n)"
    and wait: "\<And>a. js_lt (Fin (real a)) (js_pred (maxAttempts cfg)) = (Suc a < n)"
    and "a + k < n"
    and "\<And>i. i < k \<Longrightarrow> \<not> succeeds (nth_outcome fn s i)"
    and "nth_outcome fn s k = Returned v" and "truthy v"
  shows "\<exists>evs. retry_loop fn cfg a lr s = Some (Returned v, probe_state fn s (Suc k), evs) \<and>
          count_calls evs = Suc k \<and>
          sleeps evs = map (\<lambda>j. calculateDelay j cfg) [a..<a + k]"
  using assms(3-)
proof (induction k arbitrary: a lr s)
  case 0
  then have lt: "a < n" by simp
  from 0 have "fst (fn s) = Returned v" by (simp add: nth_outcome_0)
  from iteration_success_events[where fn=fn and s=s and cfg=cfg and a=a and lr=lr,
      OF this \<open>truthy v\<close>]
  obtain evs where
    it: "iteration fn cfg a lr s = (Return v, snd (fn s), evs)" and c: "count_calls evs = 1"
    and sl: "sleeps evs = []"
    by blast
  have ps: "probe_state fn s (Suc 0) = snd (fn s)"
    by (simp add: probe_state_def)
  show ?case
    apply (subst retry_loop.simps)
    apply (simp only: bound lt if_True it prod.case completion.case ps)
    apply (simp add: c sl)
    done
next
  case (Suc k)
  then have lt: "a < n" and lt': "Suc a + k < n" and w: "Suc a < n" by simp_all
  from Suc.prems(2)[of 0] have f0: "\<not> succeeds (fst (fn s))"
    by (simp add: nth_outcome_0)
  from iteration_fail_events[where fn=fn and s=s and cfg=cfg and a=a and lr=lr, OF f0]
  obtain evs1 where
    it: "iteration fn cfg a lr s = (Normal (observe lr (fst (fn s))), snd (fn s), evs1)"
    and c1: "count_calls evs1 = 1"
    and s1: "sleeps evs1 = [calculateDelay a cfg]"
    unfolding wait using w by auto
  have fails: "\<And>i. i < k \<Longrightarrow> \<not> succeeds (nth_outcome fn (snd (fn s)) i)"
    using Suc.prems(2) by (simp add: nth_outcome_Suc)
  have hit: "nth_outcome fn (snd (fn s)) k = Returned v"
    using Suc.prems(3) by (simp add: nth_outcome_Suc)
  from Suc.IH[OF lt' fails hit \<open>truthy v\<close>, of "observe lr (fst (fn s))"] obtain evs2 where
    rec: "retry_loop fn cfg (Suc a) (observe lr (fst (fn s))) (snd (fn s)) =
            Some (Returned v, probe_state fn (snd (fn s)) (Suc k), evs2)"
    and c2: "count_calls evs2 = Suc k"
    and s2: "sleeps evs2 = map (\<lambda>j. calculateDelay j cfg) [Suc a..<Suc a + k]" by blast
  have "[a..<a + Suc k] = a # [Suc a..<Suc a + k]"
    by (simp add: upt_conv_Cons)
  then have sl: "sleeps (evs1 @ evs2) = map (\<lambda>j. calculateDelay j cfg) [a..<a + Suc k]"
    by (simp add: sleeps_append s1 s2)
  show ?case
    apply (subst retry_loop.simps)
    apply (simp only: bound lt if_True it prod.case completion.case rec Option.bind.simps)
    apply (simp only: probe_state_Suc)
    apply (simp add: count_calls_append c1 c2 sl)
    done
qed

text \<open>The portal preset as the loop sees it, its two loop bounds and its four delays.\<close>

lemma portal_bounds:
  "js_lt (Fin (real a))
     (maxAttempts \<lparr>maxAttempts = Fin 5, initialDelay = Fin 200, maxDelay = Fin 2000,
        backoffMultiplier = Fin 2, backoffType = JStr (js_lit ''exponential'')\<rparr>) = (a < 5)"
  "js_lt (Fin (real a))
     (js_pred (maxAttempts \<lparr>maxAttempts = Fin 5, initialDelay = Fin 200, maxDelay = Fin 2000,
        backoffMultiplier = Fin 2, backoffType = JStr (js_lit ''exponential'')\<rparr>)) = (Suc a < 5)"
  by (auto simp: js_pred_def round_double_numeral)

lemma portal_delays:
  "map (\<lambda>j. calculateDelay j \<lparr>maxAttempts = Fin 5, initialDelay = Fin 200, maxDelay = Fin 2000,
        backoffMultiplier = Fin 2, backoffType = JStr (js_lit ''exponential'')\<rparr>) [0..<4] =
   [Fin 200, Fin 400, Fin 800, Fin 1600]"
proof -
  have "[0..<4] = [0, 1, 2, 3]" by (simp add: upt_rec)
  then show ?thesis
    by (simp add: calculateDelay_def Math_pow_def round_double_numeral round_double_1)
qed

lemma portal_delays_prefix:
  assumes "j \<le> 4"
  shows "map (\<lambda>j. calculateDelay j \<lparr>maxAttempts = Fin 5, initialDelay = Fin 200, maxDelay = Fin 2000,
        backoffMultiplier = Fin 2, backoffType = JStr (js_lit ''exponential'')\<rparr>) [0..<j] =
   take j [Fin 200, Fin 400, Fin 800, Fin 1600]"
proof -
  from assms have "[0..<j] = take j [0..<4]" by (simp add: take_upt)
  then show ?thesis
    unfolding portal_delays[symmetric] by (simp only: take_map)
qed

text \<open>
  Claim C6. On a configuration that \<open>validateConfig\<close> rejects, \<open>retryWithBackoff\<close> logs
  the warning first and returns normally, whatever the probe does; its run is the run under
  the portal preset, not under the supplied configuration: a probe that fails five times is
  called exactly five times, with waits of 200, 400, 800 and 1600 ms between the calls, and
  the last observed value is returned; a probe that first succeeds on its \<open>k\<close>-th call,
  \<open>k \<le> 5\<close>, is called exactly \<open>k\<close> times, with the first \<open>k - 1\<close> of those waits, and its
  value is returned.
\<close>

theorem retryWithBackoff_invalid_config_fallback:
  assumes "\<not> validateConfig c"
  shows "(\<exists>v s' evs. retryWithBackoff fn c s = Some (Returned v, s', Warn_invalid_config # evs) \<and>
            count_calls evs \<le> 5) \<and>
         retryWithBackoff fn c s =
           Option.bind (retryWithBackoff fn RETRY_CONFIG_portal s)
             (\<lambda>(r, s', evs). Some (r, s', Warn_invalid_config # evs)) \<and>
         ((\<forall>i<5. \<not> succeeds (nth_outcome fn s i)) \<longrightarrow>
            (\<exists>evs. retryWithBackoff fn c s =
                 Some (Returned (last_observed fn s 5), probe_state fn s 5,
                       Warn_invalid_config # evs) \<and>
               count_calls evs = 5 \<and>
               sleeps evs = [Fin 200, Fin 400, Fin 800, Fin 1600])) \<and>
         (\<forall>k v. 1 \<le> k \<and> k \<le> 5 \<and> (\<forall>i<k - 1. \<not> succeeds (nth_outcome fn s i)) \<and>
                nth_outcome fn s (k - 1) = Returned v \<and> truthy v \<longrightarrow>
            (\<exists>evs. retryWithBackoff fn c s =
                 Some (Returned v, probe_state fn s k, Warn_invalid_config # evs) \<and>
               count_calls evs = k \<and>
               sleeps evs = take (k - 1) [Fin 200, Fin 400, Fin 800, Fin 1600]))"
proof -
  let ?cfg = "\<lparr>maxAttempts = Fin 5, initialDelay = Fin 200, maxDelay = Fin 2000,
           backoffMultiplier = Fin 2, backoffType = JStr (js_lit ''exponential'')\<rparr>"
  have run: "retryWithBackoff fn c s =
      Option.bind (retry_loop fn ?cfg 0 JNull s) (\<lambda>(r, s', evs). Some (r, s', Warn_invalid_config # evs))"
    using assms by (simp add: retryWithBackoff_def as_config_portal)
  have portal: "retryWithBackoff fn RETRY_CONFIG_portal s = retry_loop fn ?cfg 0 JNull s"
    using validateConfig_portal as_config_portal by (rule retryWithBackoff_valid)
  have total: "\<exists>v s' evs. retryWithBackoff fn c s = Some (Returned v, s', Warn_invalid_config # evs) \<and>
      count_calls evs \<le> 5"
  proof -
    from retry_loop_terminates[where cfg="?cfg" and n=5 and a=0 and fn=fn and lr=JNull and s=s,
        OF portal_bounds(1)]
    obtain v s' evs where "retry_loop fn ?cfg 0 JNull s = Some (Returned v, s', evs)"
      and "count_calls evs \<le> 5" by auto
    then show ?thesis unfolding run by simp
  qed
  have exhausted: "\<exists>evs. retryWithBackoff fn c s =
       Some (Returned (last_observed fn s 5), probe_state fn s 5, Warn_invalid_config # evs) \<and>
       count_calls evs = 5 \<and> sleeps evs = [Fin 200, Fin 400, Fin 800, Fin 1600]"
    if fails: "\<forall>i<5. \<not> succeeds (nth_outcome fn s i)"
  proof -
    have "\<exists>evs. retry_loop fn ?cfg 0 JNull s =
            Some (Returned (foldl observe JNull (map (nth_outcome fn s) [0..<5 - 0])),
                  probe_state fn s (5 - 0), evs) \<and>
          count_calls evs = 5 - 0 \<and>
          sleeps evs = map (\<lambda>j. calculateDelay j ?cfg) [0..<5 - 1]"
      by (rule retry_loop_exhausts_delays[OF portal_bounds]) (use fails in simp)
    then obtain evs where
      "retry_loop fn ?cfg 0 JNull s =
         Some (Returned (last_observed fn s 5), probe_state fn s 5, evs)"
      and "count_calls evs = 5"
      and "sleeps evs = map (\<lambda>j. calculateDelay j ?cfg) [0..<4]"
      unfolding last_observed_def diff_zero by auto
    then show ?thesis
      unfolding run by (simp add: portal_delays)
  qed
  have succeeded: "\<exists>evs. retryWithBackoff fn c s =
       Some (Returned v, probe_state fn s k, Warn_invalid_config # evs) \<and>
       count_calls evs = k \<and> sleeps evs = take (k - 1) [Fin 200, Fin 400, Fin 800, Fin 1600]"
    if h: "1 \<le> k \<and> k \<le> 5 \<and> (\<forall>i<k - 1. \<not> succeeds (nth_outcome fn s i)) \<and>
                nth_outcome fn s (k - 1) = Returned v \<and> truthy v" for k v
  proof -
    from h have lt: "0 + (k - 1) < 5" and k: "Suc (k - 1) = k" and k4: "k - 1 \<le> 4" by linarith+
    from h have fails: "\<And>i. i < k - 1 \<Longrightarrow> \<not> succeeds (nth_outcome fn s i)" by simp
    from h have hit: "nth_outcome fn s (k - 1) = Returned v" and tr: "truthy v" by simp_all
    have "\<exists>evs. retry_loop fn ?cfg 0 JNull s = Some (Returned v, probe_state fn s (Suc (k - 1)), evs) \<and>
          count_calls evs = Suc (k - 1) \<and>
          sleeps evs = map (\<lambda>j. calculateDelay j ?cfg) [0..<0 + (k - 1)]"
      by (rule retry_loop_succeeds_delays[OF portal_bounds lt fails hit tr])
    then obtain evs where
      "retry_loop fn ?cfg 0 JNull s = Some (Returned v, probe_state fn s k, evs)"
      and "count_calls evs = k"
      and "sleeps evs = map (\<lambda>j. calculateDelay j ?cfg) [0..<k - 1]"
      unfolding k by auto
    then show ?thesis
      unfolding run by (simp add: portal_delays_prefix[OF k4] del: One_nat_def)
  qed
  from total run portal exhausted succeeded show ?thesis by simp
qed

lemma failing_probe_outcome: "nth_outcome failing_probe s i = Returned JNull"
  by (simp add: nth_outcome_def failing_probe_def)

lemma flaky_probe_state: "probe_state flaky_probe s i = s + i"
  by (induction i) (simp_all add: probe_state_def flaky_probe_def)

lemma flaky_probe_outcome:
  "nth_outcome flaky_probe 0 i =
     (if i = 2 then Returned (JObj [(''data'', JStr (js_lit ''x''))]) else Returned JNull)"
  by (simp add: nth_outcome_def flaky_probe_state) (simp add: flaky_probe_def)

lemma throwing_probe_state: "probe_state throwing_probe s i = s + i"
  by (induction i) (simp_all add: probe_state_def throwing_probe_def)

lemma throwing_probe_outcome:
  "nth_outcome throwing_probe 0 i =
     (if i = 0 then Returned (JBool False) else Raised (JStr (js_lit ''boom'')))"
  by (simp add: nth_outcome_def throwing_probe_state) (simp add: throwing_probe_def)

text \<open>
  Under the portal preset (five attempts): a probe that always returns \<^verbatim>\<open>null\<close> is called
  five times, and a probe that returns \<^verbatim>\<open>{data: 'x'}\<close> on its third call is called three
  times and that object is the result.
\<close>

theorem retryWithBackoff_probe_invocations_witness:
  "validateConfig RETRY_CONFIG_portal \<and>
   get_prop RETRY_CONFIG_portal ''maxAttempts'' = JNum (Fin (real 5)) \<and>
   (\<exists>r s' evs. retryWithBackoff failing_probe RETRY_CONFIG_portal 0 = Some (r, s', evs) \<and>
      count_calls evs = 5) \<and>
   (\<exists>s' evs. retryWithBackoff flaky_probe RETRY_CONFIG_portal 0 =
        Some (Returned (JObj [(''data'', JStr (js_lit ''x''))]), s', evs) \<and>
      count_calls evs = 3)"
proof -
  have m: "get_prop RETRY_CONFIG_portal ''maxAttempts'' = JNum (Fin (real 5))"
    by (simp add: RETRY_CONFIG_portal_def)
  have "\<exists>r s' evs. retryWithBackoff failing_probe RETRY_CONFIG_portal 0 = Some (r, s', evs) \<and>
      count_calls evs = 5"
    using retryWithBackoff_probe_invocations[OF validateConfig_portal m, of failing_probe 0]
    by (simp add: failing_probe_outcome)
  moreover have "\<exists>s' evs. retryWithBackoff flaky_probe RETRY_CONFIG_portal 0 =
        Some (Returned (JObj [(''data'', JStr (js_lit ''x''))]), s', evs) \<and>
      count_calls evs = 3"
    using retryWithBackoff_probe_invocations[OF validateConfig_portal m, of flaky_probe 0,
        THEN conjunct2, rule_format, of 3 "JObj [(''data'', JStr (js_lit ''x''))]"]
    by (simp add: flaky_probe_outcome)
  ultimately show ?thesis
    using validateConfig_portal m by blast
qed

text \<open>
  Under the console preset, a probe that returns \<^verbatim>\<open>false\<close> once and throws ever after: the
  result is \<^verbatim>\<open>false\<close>, after five calls.
\<close>

theorem retryWithBackoff_exhaustion_witness:
  "validateConfig RETRY_CONFIG_console \<and>
   (\<forall>i. \<not> succeeds (nth_outcome throwing_probe 0 i)) \<and>
   (\<exists>s' evs. retryWithBackoff throwing_probe RETRY_CONFIG_console 0 =
        Some (Returned (JBool False), s', evs) \<and> count_calls evs = 5)"
proof -
  have fails: "\<forall>i. \<not> succeeds (nth_outcome throwing_probe 0 i)"
    by (simp add: throwing_probe_outcome)
  have m: "get_prop RETRY_CONFIG_console ''maxAttempts'' = JNum (Fin 5) \<and> Fin 5 \<noteq> PosInf"
    by (simp add: RETRY_CONFIG_console_def)
  have five: "[0..<5] = [0, 1, 2, 3, 4]"
    by (simp add: upt_rec)
  have lo: "last_observed throwing_probe 0 (attempt_limit (Fin 5)) = JBool False"
    by (simp add: last_observed_def throwing_probe_outcome five)
  from retryWithBackoff_exhaustion[OF validateConfig_console fails, THEN conjunct2,
      rule_format, OF m, THEN conjunct1]
  have "\<exists>s' evs. retryWithBackoff throwing_probe RETRY_CONFIG_console 0 =
        Some (Returned (JBool False), s', evs) \<and> count_calls evs = 5"
    unfolding lo by simp
  with validateConfig_console fails show ?thesis by blast
qed

text \<open>
  A configuration with \<open>maxAttempts = 0\<close> is invalid. Under it a probe that always fails is
  still called five times with the preset's four waits, and a probe that succeeds on its
  third call is called three times.
\<close>

theorem retryWithBackoff_invalid_config_fallback_witness:
  "\<not> validateConfig zero_attempts_config \<and>
   (\<exists>evs. retryWithBackoff failing_probe zero_attempts_config 0 =
        Some (Returned JNull, 5, Warn_invalid_config # evs) \<and>
      count_calls evs = 5 \<and> sleeps evs = [Fin 200, Fin 400, Fin 800, Fin 1600]) \<and>
   (\<exists>evs. retryWithBackoff flaky_probe zero_attempts_config 0 =
        Some (Returned (JObj [(''data'', JStr (js_lit ''x''))]), 3, Warn_invalid_config # evs) \<and>
      count_calls evs = 3 \<and> sleeps evs = [Fin 200, Fin 400])"
proof -
  have inv: "\<not> validateConfig zero_attempts_config"
    by (simp add: validateConfig_def zero_attempts_config_def)
  note T = retryWithBackoff_invalid_config_fallback[OF inv]
  have five: "[0..<5] = [0, 1, 2, 3, 4]"
    by (simp add: upt_rec)
  have lo: "last_observed failing_probe 0 5 = JNull"
    by (simp add: last_observed_def failing_probe_outcome five)
  have fs: "probe_state failing_probe 0 5 = 5"
    by (simp add: probe_state_def failing_probe_def eval_nat_numeral)
  have "\<exists>evs. retryWithBackoff failing_probe zero_attempts_config 0 =
        Some (Returned JNull, 5, Warn_invalid_config # evs) \<and>
      count_calls evs = 5 \<and> sleeps evs = [Fin 200, Fin 400, Fin 800, Fin 1600]"
    using T[of failing_probe 0, THEN conjunct2, THEN conjunct2, THEN conjunct1]
    by (simp add: failing_probe_outcome lo fs)
  moreover have "\<exists>evs. retryWithBackoff flaky_probe zero_attempts_config 0 =
        Some (Returned (JObj [(''data'', JStr (js_lit ''x''))]), 3, Warn_invalid_config # evs) \<and>
      count_calls evs = 3 \<and> sleeps evs = [Fin 200, Fin 400]"
    using T[of flaky_probe 0, THEN conjunct2, THEN conjunct2, THEN conjunct2, rule_format,
        of 3 "JObj [(''data'', JStr (js_lit ''x''))]"]
    by (simp add: flaky_probe_outcome flaky_probe_state)
  ultimately show ?thesis using inv by blast
qed

text \<open>
  The whole run of a probe that always returns \<^verbatim>\<open>null\<close> under three attempts with
  exponential backoff from 200 ms: delays of 200 ms and 400 ms, three calls, result
  \<^verbatim>\<open>null\<close>, and no delay after the last attempt.
\<close>

lemma scenario_B_trace:
  "retryWithBackoff failing_probe scenario_B_config 0 =
     Some (Returned JNull, 3,
       [Log_attempt 1 (Fin 3), Probe_called, Log_failed 1 (Fin 200), Sleep (Fin 200),
        Log_attempt 2 (Fin 3), Probe_called, Log_failed 2 (Fin 400), Sleep (Fin 400),
        Log_attempt 3 (Fin 3), Probe_called,
        Warn_exhausted (Fin 3)])"
  by (simp add: retryWithBackoff_def validateConfig_def as_config_def scenario_B_config_def
      retry_loop.simps iteration_def try_block_def failing_probe_def calculateDelay_def
      js_pred_def Math_pow_def round_double_numeral round_double_1)

text \<open>With \<open>maxAttempts = Infinity\<close> and a probe that never succeeds, the loop never returns.\<close>

lemma retry_loop_unbounded_diverges:
  assumes "retry_loop fn cfg a lr s = Some y"
    and "maxAttempts cfg = PosInf"
    and "\<forall>i. \<not> succeeds (nth_outcome fn s i)"
  shows False
  using assms
proof (induction fn cfg a lr s y rule: retry_loop.raw_induct[rotated 1, consumes 1])
  case (1 rl fn cfg a lr s y)
  from 1(4) have f0: "\<not> succeeds (fst (fn s))"
    by (metis nth_outcome_0)
  from iteration_fail[where fn=fn and s=s and cfg=cfg and a=a and lastResult=lr, OF f0]
  obtain evs1 where
    it: "iteration fn cfg a lr s = (Normal (observe lr (fst (fn s))), snd (fn s), evs1)"
    by blast
  from 1(2) obtain y' where "rl fn cfg (Suc a) (observe lr (fst (fn s))) (snd (fn s)) = Some y'"
    by (auto simp: 1(3) it split: Option.bind_splits)
  moreover have "\<forall>i. \<not> succeeds (nth_outcome fn (snd (fn s)) i)"
    using 1(4) by (simp add: nth_outcome_Suc)
  ultimately show False using 1(1) 1(3) by blast
qed

section \<open>Properties of the element poller\<close>

lemma poll_state_0: "poll_state env w 0 = w"
  by (simp add: poll_state_def)

lemma poll_state_Suc:
  "poll_state env (after_timeout env elementPolling_pollInterval w) i = poll_state env w (Suc i)"
  by (simp add: poll_state_def funpow_swap1)

lemma check_keeps_waiting:
  assumes "keeps_waiting env selector timeout startTime w"
  shows "check env selector timeout startTime b w =
     Option.bind
       (check env selector timeout startTime False (after_timeout env elementPolling_pollInterval w))
       (\<lambda>(r, w', evs). Some (r, w', [Queried, Timer_set elementPolling_pollInterval] @ evs))"
  using assms
  by (subst check.simps) (simp add: keeps_waiting_def split: outcome.splits)

text \<open>
  What the poller does as long as no query throws: it resolves with the element at the first
  poll that finds it, and with \<^verbatim>\<open>null\<close> at the first poll, before that, at which the
  elapsed time has reached the timeout. \<open>i + 1\<close> queries have been made by then.
\<close>

lemma check_finds:
  assumes "\<And>j. j < i \<Longrightarrow> keeps_waiting env selector timeout startTime (poll_state env w j)"
    and "querySelector env (poll_state env w i) selector = Returned el"
    and "truthy el"
  shows "\<exists>evs. check env selector timeout startTime b w =
            Some (Resolved el, poll_state env w i, evs) \<and>
          length (filter (\<lambda>e. e = Queried) evs) = Suc i"
  using assms
proof (induction i arbitrary: w b)
  case 0
  then show ?case
    by (subst check.simps) (simp add: poll_state_0)
next
  case (Suc i)
  let ?w = "after_timeout env elementPolling_pollInterval w"
  from Suc.prems(1)[of 0] have kw: "keeps_waiting env selector timeout startTime w"
    by (simp add: poll_state_0)
  have "\<exists>evs. check env selector timeout startTime False ?w =
            Some (Resolved el, poll_state env ?w i, evs) \<and>
          length (filter (\<lambda>e. e = Queried) evs) = Suc i"
  proof (rule Suc.IH)
    fix j assume "j < i"
    then show "keeps_waiting env selector timeout startTime (poll_state env ?w j)"
      using Suc.prems(1)[of "Suc j"] by (simp add: poll_state_Suc)
  next
    show "querySelector env (poll_state env ?w i) selector = Returned el"
      using Suc.prems(2) by (simp add: poll_state_Suc)
  qed (rule Suc.prems(3))
  then obtain evs where
    "check env selector timeout startTime False ?w = Some (Resolved el, poll_state env ?w i, evs)"
    and "length (filter (\<lambda>e. e = Queried) evs) = Suc i" by blast
  then show ?case
    by (simp add: check_keeps_waiting[OF kw] poll_state_Suc)
qed

lemma check_times_out:
  assumes "\<And>j. j < i \<Longrightarrow> keeps_waiting env selector timeout startTime (poll_state env w j)"
    and "querySelector env (poll_state env w i) selector = Returned el"
    and "\<not> truthy el"
    and "js_le timeout (Fin (real_of_int (Date_now env (poll_state env w i) - startTime)))"
  shows "\<exists>evs. check env selector timeout startTime b w =
            Some (Resolved JNull, poll_state env w i, evs) \<and>
          length (filter (\<lambda>e. e = Queried) evs) = Suc i"
  using assms
proof (induction i arbitrary: w b)
  case 0
  then show ?case
    by (subst check.simps) (simp add: poll_state_0)
next
  case (Suc i)
  let ?w = "after_timeout env elementPolling_pollInterval w"
  from Suc.prems(1)[of 0] have kw: "keeps_waiting env selector timeout startTime w"
    by (simp add: poll_state_0)
  have "\<exists>evs. check env selector timeout startTime False ?w =
            Some (Resolved JNull, poll_state env ?w i, evs) \<and>
          length (filter (\<lambda>e. e = Queried) evs) = Suc i"
  proof (rule Suc.IH)
    fix j assume "j < i"
    then show "keeps_waiting env selector timeout startTime (poll_state env ?w j)"
      using Suc.prems(1)[of "Suc j"] by (simp add: poll_state_Suc)
  next
    show "querySelector env (poll_state env ?w i) selector = Returned el"
      using Suc.prems(2) by (simp add: poll_state_Suc)
  next
    show "js_le timeout (Fin (real_of_int (Date_now env (poll_state env ?w i) - startTime)))"
      using Suc.prems(4) by (simp add: poll_state_Suc)
  qed (rule Suc.prems(3))
  then obtain evs where
    "check env selector timeout startTime False ?w = Some (Resolved JNull, poll_state env ?w i, evs)"
    and "length (filter (\<lambda>e. e = Queried) evs) = Suc i" by blast
  then show ?case
    by (simp add: check_keeps_waiting[OF kw] poll_state_Suc)
qed

text \<open>
  A query that throws ends the polling: the promise is rejected when the throw is at the
  first poll and is never settled when it is at a later one.
\<close>

lemma check_throw:
  assumes "\<And>j. j < i \<Longrightarrow> keeps_waiting env selector timeout startTime (poll_state env w j)"
    and "querySelector env (poll_state env w i) selector = Raised err"
  shows "\<exists>evs. check env selector timeout startTime b w =
            Some (if b \<and> i = 0 then Rejected err else Never_settled, poll_state env w i, evs)"
  using assms
proof (induction i arbitrary: w b)
  case 0
  then show ?case
    by (subst check.simps) (simp add: poll_state_0)
next
  case (Suc i)
  let ?w = "after_timeout env elementPolling_pollInterval w"
  from Suc.prems(1)[of 0] have kw: "keeps_waiting env selector timeout startTime w"
    by (simp add: poll_state_0)
  have "\<exists>evs. check env selector timeout startTime False ?w =
            Some (if False \<and> i = 0 then Rejected err else Never_settled, poll_state env ?w i, evs)"
  proof (rule Suc.IH)
    fix j assume "j < i"
    then show "keeps_waiting env selector timeout startTime (poll_state env ?w j)"
      using Suc.prems(1)[of "Suc j"] by (simp add: poll_state_Suc)
  next
    show "querySelector env (poll_state env ?w i) selector = Raised err"
      using Suc.prems(2) by (simp add: poll_state_Suc)
  qed
  then obtain evs where
    "check env selector timeout startTime False ?w = Some (Never_settled, poll_state env ?w i, evs)"
    by auto
  then show ?case
    by (simp add: check_keeps_waiting[OF kw] poll_state_Suc)
qed

text \<open>
  Claim C5. The specification: no exception escapes the poller, and a query that throws is
  treated as ``not found yet''. \<open>waitForElement\<close> has no handler around the query: called
  with the empty selector, which \<^verbatim>\<open>document.querySelector\<close> refuses with a
  \<^verbatim>\<open>SyntaxError\<close>, its promise is rejected with that error at the first poll, and the
  page is polled no further.
\<close>

theorem waitForElement_rejects_on_invalid_selector:
  "waitForElement slow_page [] (Fin 1000) 0 =
     Some (Rejected (SyntaxError ''The provided selector is empty''), 0, [Queried])"
  by (simp add: waitForElement_def check.simps slow_page_def)

text \<open>Two runs on the page where \<^verbatim>\<open>#menu\<close> appears at 250 ms.\<close>

lemma waitForElement_finds_menu:
  "waitForElement slow_page (js_lit ''#menu'') (Fin 1000) 0 =
     Some (Resolved (JObj [(''id'', JStr (js_lit ''menu''))]), 300,
       [Queried, Timer_set 100, Queried, Timer_set 100, Queried, Timer_set 100,
        Queried, Log_element_found (js_lit ''#menu'')])"
  by (simp add: waitForElement_def check.simps slow_page_def elementPolling_pollInterval_def js_lit_def)

lemma waitForElement_times_out:
  "waitForElement slow_page (js_lit ''#menu'') (Fin 200) 0 =
     Some (Resolved JNull, 200,
       [Queried, Timer_set 100, Queried, Timer_set 100,
        Queried, Warn_element_not_found (Fin 200) (js_lit ''#menu'')])"
  by (simp add: waitForElement_def check.simps slow_page_def elementPolling_pollInterval_def js_lit_def)

section \<open>Properties of account validation and the storage service\<close>

text \<open>What the three validation functions decide and produce.\<close>

lemma isValidAccountId_iff:
  "isValidAccountId v \<longleftrightarrow>
     (\<exists>s. v = JStr s \<and> length s = 12 \<and> (\<forall>c\<in>set s. 0x30 \<le> c \<and> c \<le> 0x39))"
  by (cases v) (auto simp: isValidAccountId_def twelve_digits_def is_digit_def list_all_iff)

lemma isValidAccountName_iff:
  "isValidAccountName v \<longleftrightarrow> (\<exists>s. v = JStr s \<and> trim s \<noteq> [] \<and> length s \<le> 256)"
  by (cases v) (auto simp: isValidAccountName_def)

lemma length_trim: "length (trim s) \<le> length s"
proof -
  have "length (dropWhile is_whitespace (rev (dropWhile is_whitespace s))) \<le>
        length (rev (dropWhile is_whitespace s))"
    by (rule length_dropWhile_le)
  also have "\<dots> \<le> length s"
    by (simp add: length_dropWhile_le)
  finally show ?thesis by (simp add: trim_def)
qed

lemma last_dropWhile:
  assumes "dropWhile P xs \<noteq> []"
  shows "last (dropWhile P xs) = last xs"
proof -
  from assms have "length (takeWhile P xs) < length xs"
    by (metis dropWhile_eq_drop drop_eq_Nil not_le_imp_less)
  then show ?thesis
    by (simp add: dropWhile_eq_drop last_drop)
qed

lemma trim_no_surrounding_whitespace:
  assumes "trim s \<noteq> []"
  shows "\<not> is_whitespace (hd (trim s)) \<and> \<not> is_whitespace (last (trim s))"
proof -
  let ?t = "dropWhile is_whitespace s"
  let ?u = "dropWhile is_whitespace (rev ?t)"
  from assms have u: "?u \<noteq> []" by (simp add: trim_def)
  then have t: "?t \<noteq> []" by (metis dropWhile.simps(1) rev.simps(1))
  have "last (trim s) = hd ?u"
    using u by (simp add: trim_def last_rev)
  moreover have "\<not> is_whitespace (hd ?u)"
    using u by (rule hd_dropWhile)
  moreover have "hd (trim s) = last ?u"
    using u by (simp add: trim_def hd_rev)
  moreover have "last ?u = hd ?t"
    using u t by (simp add: last_dropWhile last_rev)
  moreover have "\<not> is_whitespace (hd ?t)"
    using t by (rule hd_dropWhile)
  ultimately show ?thesis by simp
qed

lemma trim_unchanged:
  assumes "s \<noteq> []" and "\<not> is_whitespace (hd s)" and "\<not> is_whitespace (last s)"
  shows "trim s = s"
proof -
  from assms(1,2) have "dropWhile is_whitespace s = s"
    by (cases s) simp_all
  moreover from assms(1,3) have "dropWhile is_whitespace (rev s) = rev s"
    by (cases "rev s") (simp_all add: hd_rev[symmetric])
  ultimately show ?thesis by (simp add: trim_def)
qed

lemma sanitize_valid_name:
  assumes "isValidAccountName (JStr s)"
  shows "sanitizeAccountName (JStr s) = trim s" and "sanitizeAccountName (JStr s) \<noteq> []"
proof -
  from assms have "length (trim s) \<le> 256" and ne: "trim s \<noteq> []"
    using length_trim[of s] by (simp_all add: isValidAccountName_def)
  then show "sanitizeAccountName (JStr s) = trim s"
    by (simp add: sanitizeAccountName_def substring0_def)
  with ne show "sanitizeAccountName (JStr s) \<noteq> []" by simp
qed

text \<open>
  The length limit is tested on the name as given: a name of 257 code units is refused though
  trimming would leave four.
\<close>

lemma long_padded_name_refused:
  "\<not> isValidAccountName (JStr (js_lit ''Prod'' @ replicate 253 0x20))"
  by (simp add: isValidAccountName_def js_lit_def)

lemma is_record_get_member: "is_record r \<Longrightarrow> get_member r k = Returned (get_prop r k)"
  by (cases r) (simp_all add: is_record_def)

lemma isValidAccountId_JStr: "isValidAccountId v \<Longrightarrow> v = JStr (the_string v)"
  by (cases v) (simp_all add: isValidAccountId_def)

lemma isValidAccountId_twelve: "isValidAccountId v \<Longrightarrow> twelve_digits (the_string v)"
  by (cases v) (simp_all add: isValidAccountId_def)

lemma isValidAccountName_JStr: "isValidAccountName v \<Longrightarrow> v = JStr (the_string v)"
  by (cases v) (simp_all add: isValidAccountName_def)

lemma sanitize_name_of:
  "isValidAccountName (get_prop r ''accountName'') \<Longrightarrow>
   sanitizeAccountName (get_prop r ''accountName'') = substring0 (trim (name_of r)) 256"
  by (cases "get_prop r ''accountName''") (simp_all add: isValidAccountName_def sanitizeAccountName_def name_of_def)

lemma registered_name_Nil: "registered_name [] k = None"
  by (simp add: registered_name_def)

lemma registered_name_Cons:
  "registered_name (r # rest) k =
     (case registered_name rest k of
        Some n \<Rightarrow> Some n
      | None \<Rightarrow> if well_formed r \<and> id_of r = k then Some (substring0 (trim (name_of r)) 256) else None)"
  by (auto simp: registered_name_def split: list.splits)

text \<open>What the loop leaves in \<^verbatim>\<open>validAccounts\<close>, as far as names go.\<close>

lemma collect_valid_names:
  assumes "\<forall>r\<in>set batch. is_record r"
  shows "\<exists>m. collect_valid clock i batch acc = Returned m \<and>
           (\<forall>k. map_option stored_accountName (m k) =
              (case registered_name batch k of
                 Some n \<Rightarrow> Some n
               | None \<Rightarrow> map_option stored_accountName (acc k)))"
  using assms
proof (induction batch arbitrary: i acc)
  case Nil
  then show ?case by (simp add: registered_name_Nil)
next
  case (Cons r rest)
  then have rec: "is_record r" and rest: "\<forall>r\<in>set rest. is_record r" by simp_all
  show ?case
  proof (cases "well_formed r")
    case True
    let ?acc = "acc(id_of r \<mapsto> \<lparr>stored_accountId = id_of r,
        stored_accountName = sanitizeAccountName (get_prop r ''accountName''),
        lastUpdated = clock i\<rparr>)"
    from True have step: "collect_valid clock i (r # rest) acc = collect_valid clock (Suc i) rest ?acc"
      by (simp add: well_formed_def is_record_get_member id_of_def)
    from Cons.IH[OF rest, of "Suc i" ?acc] obtain m where
      m: "collect_valid clock (Suc i) rest ?acc = Returned m"
      and names: "\<forall>k. map_option stored_accountName (m k) =
              (case registered_name rest k of
                 Some n \<Rightarrow> Some n
               | None \<Rightarrow> map_option stored_accountName (?acc k))" by blast
    from True have san: "sanitizeAccountName (get_prop r ''accountName'') = substring0 (trim (name_of r)) 256"
      by (simp add: well_formed_def sanitize_name_of)
    show ?thesis
      using True names
      unfolding step m
      by (auto simp: registered_name_Cons san split: option.splits)
  next
    case False
    with rec have step: "collect_valid clock i (r # rest) acc = collect_valid clock (Suc i) rest acc"
      by (auto simp: well_formed_def is_record_get_member)
    from Cons.IH[OF rest, of "Suc i" acc] obtain m where
      m: "collect_valid clock (Suc i) rest acc = Returned m"
      and names: "\<forall>k. map_option stored_accountName (m k) =
              (case registered_name rest k of
                 Some n \<Rightarrow> Some n
               | None \<Rightarrow> map_option stored_accountName (acc k))" by blast
    show ?thesis
      using False names
      unfolding step m
      by (auto simp: registered_name_Cons split: option.splits)
  qed
qed

lemma collect_valid_from_empty:
  assumes "\<forall>r\<in>set batch. is_record r"
  shows "\<exists>m. collect_valid clock 0 batch Map.empty = Returned m \<and>
           (\<forall>k. map_option stored_accountName (m k) = registered_name batch k)"
proof -
  from collect_valid_names[OF assms, of clock 0 Map.empty] obtain m where
    m: "collect_valid clock 0 batch Map.empty = Returned m"
    and names: "\<And>k. map_option stored_accountName (m k) =
       (case registered_name batch k of
          Some n \<Rightarrow> Some n
        | None \<Rightarrow> map_option stored_accountName (None :: account_mapping option))"
    by auto
  have "map_option stored_accountName (m k) = registered_name batch k" for k
    using names[of k] by (cases "registered_name batch k") simp_all
  with m show ?thesis by blast
qed

text \<open>Storing a batch of records in a working storage area, then reading an account id.\<close>

lemma storeAccounts_success:
  assumes "\<forall>r\<in>set batch. is_record r" and "failure st = None"
  shows "fst (storeAccounts clock batch st) = \<lparr>success = True, error = None\<rparr>"
    and "failure (snd (storeAccounts clock batch st)) = None"
proof -
  from collect_valid_from_empty[OF assms(1), of clock] obtain m where
    "collect_valid clock 0 batch Map.empty = Returned m" by blast
  with assms(2) show "fst (storeAccounts clock batch st) = \<lparr>success = True, error = None\<rparr>"
    and "failure (snd (storeAccounts clock batch st)) = None"
    by (simp_all add: storeAccounts_def storage_set_def)
qed

lemma store_then_get:
  assumes "\<forall>r\<in>set batch. is_record r" and "failure st = None" and "twelve_digits k"
  shows "getAccountName (JStr k) (snd (storeAccounts clock batch st)) =
           \<lparr>success = True, error = None, accountName = registered_name batch k\<rparr>"
proof -
  from collect_valid_from_empty[OF assms(1), of clock] obtain m where
    m: "collect_valid clock 0 batch Map.empty = Returned m"
    and names: "\<forall>k. map_option stored_accountName (m k) = registered_name batch k"
    by blast
  have st': "snd (storeAccounts clock batch st) = st\<lparr>accounts_item := Some m, version_item := Some 1\<rparr>"
    using assms(2) by (simp add: storeAccounts_def storage_set_def m)
  from names have "map_option stored_accountName (m k) = registered_name batch k"
    by simp
  then show ?thesis
    using assms(2,3)
    by (cases "m k") (auto simp: getAccountName_def st' isValidAccountId_def storage_get_accounts_def)
qed

lemma get_invalid_id:
  "\<not> isValidAccountId v \<Longrightarrow> accountName (getAccountName v st) = None \<and> \<not> success (getAccountName v st)"
  by (simp add: getAccountName_def)

lemma well_formed_id:
  assumes "well_formed r"
  shows "get_prop r ''accountId'' = JStr (id_of r)" and "twelve_digits (id_of r)"
proof -
  from assms have v: "isValidAccountId (get_prop r ''accountId'')"
    by (simp add: well_formed_def)
  then show "get_prop r ''accountId'' = JStr (id_of r)"
    unfolding id_of_def by (rule isValidAccountId_JStr)
  from v show "twelve_digits (id_of r)"
    unfolding id_of_def by (rule isValidAccountId_twelve)
qed

lemma registered_name_None_iff:
  "registered_name batch k = None \<longleftrightarrow> \<not> (\<exists>r\<in>set batch. well_formed r \<and> id_of r = k)"
proof -
  have "registered_name batch k = None \<longleftrightarrow> filter (\<lambda>r. well_formed r \<and> id_of r = k) batch = []"
    by (simp add: registered_name_def split: list.splits)
  then show ?thesis by (simp add: filter_empty_conv)
qed

lemma registered_name_filter:
  "registered_name (filter well_formed batch) k = registered_name batch k"
proof -
  have "filter (\<lambda>r. well_formed r \<and> id_of r = k) (filter well_formed batch) =
        filter (\<lambda>r. well_formed r \<and> id_of r = k) batch"
    by (simp add: conj_commute cong: conj_cong)
  then show ?thesis by (simp add: registered_name_def)
qed

lemma registered_name_well_formed:
  assumes "\<forall>r\<in>set M. well_formed r" and "r \<in> set M"
  shows "registered_name M (id_of r) =
           Some (substring0 (trim (name_of (last (filter (\<lambda>r'. id_of r' = id_of r) M)))) 256)"
proof -
  from assms(1) have f: "filter (\<lambda>r'. well_formed r' \<and> id_of r' = id_of r) M =
      filter (\<lambda>r'. id_of r' = id_of r) M"
    by (auto intro: filter_cong)
  from assms(2) have "filter (\<lambda>r'. id_of r' = id_of r) M \<noteq> []"
    by (auto simp: filter_empty_conv)
  then show ?thesis
    by (simp add: registered_name_def f split: list.splits)
qed

lemma filter_same_key_distinct:
  assumes "distinct (map f xs)" and "x \<in> set xs"
  shows "filter (\<lambda>y. f y = f x) xs = [x]"
  using assms
proof (induction xs)
  case Nil
  then show ?case by simp
next
  case (Cons y ys)
  show ?case
  proof (cases "y = x")
    case True
    with Cons.prems(1) have "f x \<notin> f ` set ys" by simp
    then have "\<forall>z\<in>set ys. f z \<noteq> f x" by (metis imageI)
    then have "filter (\<lambda>y. f y = f x) ys = []" by (simp add: filter_empty_conv)
    with True show ?thesis by simp
  next
    case False
    with Cons.prems have "x \<in> set ys" and "f y \<noteq> f x" by force+
    with Cons show ?thesis by simp
  qed
qed

text \<open>
  Claim C7. Storing a batch \<open>A\<close> and then a batch \<open>B\<close> of well-formed records in a
  working storage area leaves exactly the account ids of \<open>B\<close> resolvable: an id resolves to
  a name if and only if a record of \<open>B\<close> carries it, and for every id of \<open>A\<close> that no record
  of \<open>B\<close> carries \<open>getAccountName\<close> returns success with the name \<^verbatim>\<open>null\<close>.
\<close>

theorem store_full_replace:
  assumes "\<forall>r\<in>set A. well_formed r" and "\<forall>r\<in>set B. well_formed r" and "failure st = None"
  shows "(\<forall>v. accountName
              (getAccountName v
                 (snd (storeAccounts clockB B (snd (storeAccounts clockA A st))))) \<noteq> None
            \<longleftrightarrow> (\<exists>b\<in>set B. get_prop b ''accountId'' = v)) \<and>
         (\<forall>a\<in>set A. (\<forall>b\<in>set B. get_prop b ''accountId'' \<noteq> get_prop a ''accountId'') \<longrightarrow>
            getAccountName (get_prop a ''accountId'')
              (snd (storeAccounts clockB B (snd (storeAccounts clockA A st)))) =
            \<lparr>success = True, error = None, accountName = None\<rparr>)"
proof -
  let ?st1 = "snd (storeAccounts clockA A st)"
  let ?st2 = "snd (storeAccounts clockB B ?st1)"
  from assms(1) have recA: "\<forall>r\<in>set A. is_record r" by (simp add: well_formed_def)
  from assms(2) have recB: "\<forall>r\<in>set B. is_record r" by (simp add: well_formed_def)
  have ok1: "failure ?st1 = None"
    using recA assms(3) by (rule storeAccounts_success(2))
  have get: "\<And>k. twelve_digits k \<Longrightarrow>
      getAccountName (JStr k) ?st2 = \<lparr>success = True, error = None, accountName = registered_name B k\<rparr>"
    using recB ok1 by (rule store_then_get)
  have iff: "accountName (getAccountName v ?st2) \<noteq> None \<longleftrightarrow> (\<exists>b\<in>set B. get_prop b ''accountId'' = v)"
    for v
  proof (cases "isValidAccountId v")
    case False
    then have "accountName (getAccountName v ?st2) = None"
      by (simp add: get_invalid_id)
    moreover from False assms(2) have "\<not> (\<exists>b\<in>set B. get_prop b ''accountId'' = v)"
      by (auto simp: well_formed_def)
    ultimately show ?thesis by simp
  next
    case True
    then have v: "v = JStr (the_string v)" and td: "twelve_digits (the_string v)"
      by (rule isValidAccountId_JStr, rule isValidAccountId_twelve)
    have "accountName (getAccountName v ?st2) \<noteq> None \<longleftrightarrow>
        (\<exists>r\<in>set B. well_formed r \<and> id_of r = the_string v)"
      using get[OF td] v registered_name_None_iff[of B "the_string v"] by auto
    also have "\<dots> \<longleftrightarrow> (\<exists>b\<in>set B. get_prop b ''accountId'' = v)"
      using assms(2) v well_formed_id(1) by (metis id_of_def)
    finally show ?thesis .
  qed
  have gone: "getAccountName (get_prop a ''accountId'') ?st2 =
      \<lparr>success = True, error = None, accountName = None\<rparr>"
    if a: "a \<in> set A" and nb: "\<forall>b\<in>set B. get_prop b ''accountId'' \<noteq> get_prop a ''accountId''" for a
  proof -
    from a assms(1) have wa: "well_formed a" by simp
    have "registered_name B (id_of a) = None"
      using nb well_formed_id(1)[OF wa] well_formed_id(1)
      by (fastforce simp: registered_name_None_iff)
    then show ?thesis
      using get[OF well_formed_id(2)[OF wa]] well_formed_id(1)[OF wa] by simp
  qed
  from iff gone show ?thesis by blast
qed

text \<open>
  Claim C8. After storing a batch \<open>M\<close> of well-formed records in a working storage area,
  reading the id of any record of \<open>M\<close> returns success and the name of the last record of
  \<open>M\<close> with that id, trimmed and cut to 256 code units; when the ids of \<open>M\<close> are distinct
  that is the record's own name.
\<close>

theorem store_round_trip:
  assumes "\<forall>r\<in>set M. well_formed r" and "failure st = None"
  shows "(\<forall>r\<in>set M.
            getAccountName (get_prop r ''accountId'') (snd (storeAccounts clock M st)) =
              \<lparr>success = True, error = None,
               accountName = Some (substring0 (trim (name_of
                  (last (filter (\<lambda>r'. id_of r' = id_of r) M)))) 256)\<rparr>) \<and>
         (distinct (map id_of M) \<longrightarrow>
            (\<forall>r\<in>set M.
               getAccountName (get_prop r ''accountId'') (snd (storeAccounts clock M st)) =
                 \<lparr>success = True, error = None,
                  accountName = Some (substring0 (trim (name_of r)) 256)\<rparr>))"
proof -
  from assms(1) have rec: "\<forall>r\<in>set M. is_record r" by (simp add: well_formed_def)
  have general: "getAccountName (get_prop r ''accountId'') (snd (storeAccounts clock M st)) =
      \<lparr>success = True, error = None,
       accountName = Some (substring0 (trim (name_of
          (last (filter (\<lambda>r'. id_of r' = id_of r) M)))) 256)\<rparr>"
    if r: "r \<in> set M" for r
  proof -
    from r assms(1) have w: "well_formed r" by simp
    show ?thesis
      using store_then_get[OF rec assms(2) well_formed_id(2)[OF w], of clock]
        registered_name_well_formed[OF assms(1) r] well_formed_id(1)[OF w]
      by simp
  qed
  have "getAccountName (get_prop r ''accountId'') (snd (storeAccounts clock M st)) =
      \<lparr>success = True, error = None, accountName = Some (substring0 (trim (name_of r)) 256)\<rparr>"
    if "distinct (map id_of M)" and r: "r \<in> set M" for r
    using general[OF r] filter_same_key_distinct[OF that] by simp
  with general show ?thesis by blast
qed

text \<open>
  Claim C9. Storing any batch of records in a working storage area returns success. Every
  well-formed record's id is resolvable afterwards; what an account id resolves to is what
  the batch without its malformed records registers for it; and the id of a malformed record
  that no well-formed record of the batch shares resolves to no name.
\<close>

theorem store_drops_malformed_records:
  assumes "\<forall>r\<in>set batch. is_record r" and "failure st = None"
  shows "fst (storeAccounts clock batch st) = \<lparr>success = True, error = None\<rparr> \<and>
         (\<forall>r\<in>set batch. well_formed r \<longrightarrow>
            success (getAccountName (get_prop r ''accountId'') (snd (storeAccounts clock batch st))) \<and>
            accountName (getAccountName (get_prop r ''accountId'') (snd (storeAccounts clock batch st)))
              \<noteq> None) \<and>
         (\<forall>k. twelve_digits k \<longrightarrow>
            getAccountName (JStr k) (snd (storeAccounts clock batch st)) =
              \<lparr>success = True, error = None,
               accountName = registered_name (filter well_formed batch) k\<rparr>) \<and>
         (\<forall>r\<in>set batch.
            \<not> well_formed r \<and>
            (\<forall>r'\<in>set batch. well_formed r' \<longrightarrow>
               get_prop r' ''accountId'' \<noteq> get_prop r ''accountId'') \<longrightarrow>
            accountName (getAccountName (get_prop r ''accountId'') (snd (storeAccounts clock batch st)))
              = None)"
proof -
  let ?st' = "snd (storeAccounts clock batch st)"
  have get: "\<And>k. twelve_digits k \<Longrightarrow>
      getAccountName (JStr k) ?st' = \<lparr>success = True, error = None, accountName = registered_name batch k\<rparr>"
    using assms by (rule store_then_get)
  have kept: "success (getAccountName (get_prop r ''accountId'') ?st') \<and>
      accountName (getAccountName (get_prop r ''accountId'') ?st') \<noteq> None"
    if r: "r \<in> set batch" and w: "well_formed r" for r
  proof -
    from r w have "registered_name batch (id_of r) \<noteq> None"
      by (auto simp: registered_name_None_iff)
    then show ?thesis
      using get[OF well_formed_id(2)[OF w]] well_formed_id(1)[OF w] by simp
  qed
  have dropped: "accountName (getAccountName (get_prop r ''accountId'') ?st') = None"
    if others: "\<forall>r'\<in>set batch. well_formed r' \<longrightarrow>
        get_prop r' ''accountId'' \<noteq> get_prop r ''accountId''" for r
  proof (cases "isValidAccountId (get_prop r ''accountId'')")
    case False
    then show ?thesis by (simp add: get_invalid_id)
  next
    case True
    then have v: "get_prop r ''accountId'' = JStr (id_of r)" and td: "twelve_digits (id_of r)"
      unfolding id_of_def by (rule isValidAccountId_JStr, rule isValidAccountId_twelve)
    have "registered_name batch (id_of r) = None"
      using others v well_formed_id(1) by (fastforce simp: registered_name_None_iff)
    then show ?thesis
      using get[OF td] v by simp
  qed
  show ?thesis
    using storeAccounts_success(1)[OF assms, of clock] kept dropped get
    by (simp add: registered_name_filter)
qed

lemmas record_defs =
  prod_record_def dev_record_def dev_renamed_record_def short_id_record_def
  blank_name_record_def account_def

lemmas validation_defs =
  well_formed_def is_record_def isValidAccountId_def isValidAccountName_def twelve_digits_def
  is_digit_def trim_def is_whitespace_def js_lit_def

lemma well_formed_prod_record: "well_formed prod_record"
  by (simp add: record_defs validation_defs)

lemma well_formed_dev_record: "well_formed dev_record"
  by (simp add: record_defs validation_defs)

lemma well_formed_dev_renamed_record: "well_formed dev_renamed_record"
  by (simp add: record_defs validation_defs)

lemma not_well_formed_short_id_record: "\<not> well_formed short_id_record"
  by (simp add: record_defs validation_defs)

lemma not_well_formed_blank_name_record: "\<not> well_formed blank_name_record"
  by (simp add: record_defs validation_defs)

lemma id_of_records:
  "get_prop prod_record ''accountId'' = JStr (js_lit ''123456789012'')"
  "get_prop dev_record ''accountId'' = JStr (js_lit ''210987654321'')"
  "get_prop dev_renamed_record ''accountId'' = JStr (js_lit ''210987654321'')"
  "get_prop short_id_record ''accountId'' = JStr (js_lit ''12345'')"
  "get_prop blank_name_record ''accountId'' = JStr (js_lit ''333333333333'')"
  by (simp_all add: record_defs)

lemma trimmed_prod: "substring0 (trim (name_of prod_record)) 256 = js_lit ''Prod''"
  by (simp add: record_defs name_of_def substring0_def trim_def is_whitespace_def js_lit_def)

text \<open>Storing the name \<^verbatim>\<open>'  Prod  '\<close> for \<^verbatim>\<open>'123456789012'\<close> and reading the id returns \<^verbatim>\<open>'Prod'\<close>.\<close>

theorem store_round_trip_witness:
  "well_formed prod_record \<and> failure empty_storage = None \<and>
   getAccountName (JStr (js_lit ''123456789012''))
     (snd (storeAccounts (\<lambda>i. 0) [prod_record] empty_storage)) =
   \<lparr>success = True, error = None, accountName = Some (js_lit ''Prod'')\<rparr>"
proof -
  have wf: "\<forall>r\<in>set [prod_record]. well_formed r"
    by (simp add: well_formed_prod_record)
  have ok: "failure empty_storage = None"
    by (simp add: empty_storage_def)
  from store_round_trip[OF wf ok, of "\<lambda>i. 0", THEN conjunct1]
  have "getAccountName (get_prop prod_record ''accountId'')
          (snd (storeAccounts (\<lambda>i. 0) [prod_record] empty_storage)) =
        \<lparr>success = True, error = None,
         accountName = Some (substring0 (trim (name_of prod_record)) 256)\<rparr>"
    by simp
  then show ?thesis
    using well_formed_prod_record ok by (simp add: id_of_records trimmed_prod)
qed

text \<open>A batch with a five-digit id, a well-formed record and a blank name.\<close>

theorem store_drops_malformed_records_witness:
  "is_record prod_record \<and> is_record short_id_record \<and> is_record blank_name_record \<and>
   failure empty_storage = None \<and>
   well_formed prod_record \<and> \<not> well_formed short_id_record \<and> \<not> well_formed blank_name_record \<and>
   fst (storeAccounts (\<lambda>i. 0) [short_id_record, prod_record, blank_name_record] empty_storage) =
     \<lparr>success = True, error = None\<rparr> \<and>
   accountName (getAccountName (JStr (js_lit ''123456789012''))
     (snd (storeAccounts (\<lambda>i. 0) [short_id_record, prod_record, blank_name_record] empty_storage)))
     \<noteq> None \<and>
   accountName (getAccountName (JStr (js_lit ''333333333333''))
     (snd (storeAccounts (\<lambda>i. 0) [short_id_record, prod_record, blank_name_record] empty_storage)))
     = None"
proof -
  have recs: "is_record prod_record" "is_record short_id_record" "is_record blank_name_record"
    by (simp_all add: record_defs is_record_def)
  then have all: "\<forall>r\<in>set [short_id_record, prod_record, blank_name_record]. is_record r"
    by simp
  have ok: "failure empty_storage = None"
    by (simp add: empty_storage_def)
  have ids: "get_prop prod_record ''accountId'' \<noteq> get_prop blank_name_record ''accountId''"
    by (simp add: id_of_records js_lit_def)
  note inst = store_drops_malformed_records[OF all ok, of "\<lambda>i. 0"]
  from inst have "fst (storeAccounts (\<lambda>i. 0) [short_id_record, prod_record, blank_name_record]
      empty_storage) = \<lparr>success = True, error = None\<rparr>"
    by blast
  moreover from inst well_formed_prod_record
  have "accountName (getAccountName (get_prop prod_record ''accountId'')
     (snd (storeAccounts (\<lambda>i. 0) [short_id_record, prod_record, blank_name_record] empty_storage)))
     \<noteq> None"
    by simp
  moreover from inst not_well_formed_short_id_record not_well_formed_blank_name_record ids
  have "accountName (getAccountName (get_prop blank_name_record ''accountId'')
     (snd (storeAccounts (\<lambda>i. 0) [short_id_record, prod_record, blank_name_record] empty_storage)))
     = None"
    by simp
  ultimately show ?thesis
    using recs ok well_formed_prod_record not_well_formed_short_id_record
      not_well_formed_blank_name_record
    by (simp add: id_of_records)
qed

text \<open>Storing two accounts and then one of them again: the other is gone.\<close>

theorem store_full_replace_witness:
  "well_formed prod_record \<and> well_formed dev_record \<and> well_formed dev_renamed_record \<and>
   failure empty_storage = None \<and>
   getAccountName (JStr (js_lit ''123456789012''))
     (snd (storeAccounts (\<lambda>i. 2) [dev_renamed_record]
        (snd (storeAccounts (\<lambda>i. 1) [prod_record, dev_record] empty_storage)))) =
     \<lparr>success = True, error = None, accountName = None\<rparr> \<and>
   accountName (getAccountName (JStr (js_lit ''210987654321''))
     (snd (storeAccounts (\<lambda>i. 2) [dev_renamed_record]
        (snd (storeAccounts (\<lambda>i. 1) [prod_record, dev_record] empty_storage))))) \<noteq> None"
proof -
  have wfA: "\<forall>r\<in>set [prod_record, dev_record]. well_formed r"
    by (simp add: well_formed_prod_record well_formed_dev_record)
  have wfB: "\<forall>r\<in>set [dev_renamed_record]. well_formed r"
    by (simp add: well_formed_dev_renamed_record)
  have ok: "failure empty_storage = None"
    by (simp add: empty_storage_def)
  have ids: "get_prop dev_renamed_record ''accountId'' \<noteq> get_prop prod_record ''accountId''"
    by (simp add: id_of_records js_lit_def)
  note inst = store_full_replace[OF wfA wfB ok, of "\<lambda>i. 2" "\<lambda>i. 1"]
  from inst ids
  have "getAccountName (get_prop prod_record ''accountId'')
     (snd (storeAccounts (\<lambda>i. 2) [dev_renamed_record]
        (snd (storeAccounts (\<lambda>i. 1) [prod_record, dev_record] empty_storage)))) =
     \<lparr>success = True, error = None, accountName = None\<rparr>"
    by simp
  moreover from inst
  have "accountName (getAccountName (get_prop dev_renamed_record ''accountId'')
     (snd (storeAccounts (\<lambda>i. 2) [dev_renamed_record]
        (snd (storeAccounts (\<lambda>i. 1) [prod_record, dev_record] empty_storage))))) \<noteq> None"
    by simp
  ultimately show ?thesis
    using well_formed_prod_record well_formed_dev_record well_formed_dev_renamed_record ok
    by (simp add: id_of_records)
qed

text \<open>A batch with a \<^verbatim>\<open>null\<close> element stores nothing and reports the TypeError.\<close>

lemma storeAccounts_null_element:
  "storeAccounts clock [prod_record, JNull] st =
     (\<lparr>success = False, error = Some (JStr (js_lit ''Cannot read properties of null''))\<rparr>, st)"
  by (simp add: storeAccounts_def record_defs validation_defs message_of_def TypeError_def)

text \<open>While the storage area is out of order, storing reports its error and changes nothing.\<close>

lemma storeAccounts_storage_failure:
  assumes "\<forall>r\<in>set batch. is_record r" and "failure st = Some e"
  shows "storeAccounts clock batch st = (\<lparr>success = False, error = Some (message_of e)\<rparr>, st)"
proof -
  from collect_valid_from_empty[OF assms(1), of clock] obtain m where
    "collect_valid clock 0 batch Map.empty = Returned m" by blast
  with assms(2) show ?thesis
    by (simp add: storeAccounts_def storage_set_def)
qed

text \<open>After \<open>clearAllAccounts\<close> every account id resolves to no name.\<close>

lemma clear_then_get:
  assumes "failure st = None"
  shows "accountName (getAccountName v (snd (clearAllAccounts st))) = None"
  using assms
  by (simp add: clearAllAccounts_def storage_clear_def getAccountName_def storage_get_accounts_def)

section \<open>Properties of the console display\<close>

text \<open>
  Claim C10. For every account name and account id, the tooltip text of
  \<open>createDisplayElement\<close> is the full name, a space and the id in parentheses; the display
  text is the name when it has at most 30 code units and otherwise its first 27 code units
  followed by \<^verbatim>\<open>...\<close>; the display text never has more than 30 code units. The element
  carries the same two texts.
\<close>

theorem createDisplayElement_texts:
  "tooltipText (createDisplayElement name ident) = name @ js_lit '' ('' @ ident @ js_lit '')'' \<and>
   displayText (createDisplayElement name ident) =
     (if length name \<le> 30 then name else take 27 name @ js_lit ''...'') \<and>
   length (displayText (createDisplayElement name ident)) \<le> 30 \<and>
   textContent (element (createDisplayElement name ident)) =
     displayText (createDisplayElement name ident) \<and>
   title (element (createDisplayElement name ident)) =
     tooltipText (createDisplayElement name ident)"
  by (auto simp: createDisplayElement_def truncateText_def CONFIG_maxNameLength_def substring0_def
      js_lit_def Let_def)

text \<open>A name of 31 characters is cut to 27 and the ellipsis; the tooltip keeps it whole.\<close>

lemma createDisplayElement_long_name:
  "displayText (createDisplayElement (js_lit ''production-account-eu-central-1'') (js_lit ''123456789012''))
     = js_lit ''production-account-eu-centr...'' \<and>
   tooltipText (createDisplayElement (js_lit ''production-account-eu-central-1'') (js_lit ''123456789012''))
     = js_lit ''production-account-eu-central-1 (123456789012)''"
  by (simp add: createDisplayElement_def truncateText_def CONFIG_maxNameLength_def substring0_def
      js_lit_def Let_def)

end
